theory Spec2Isabelle
  imports Main "HOL-Library.Word"
begin

unbundle bit_operations_syntax

section \<open>The node graph of memnode.cpp\<close>

text \<open>
  A \<open>Node*\<close> is modelled by the identity of the node (an index into the arena of the
  compilation); the graph maps an identity to the contents of the node. Two different
  identities may carry the same contents: pointer equality of the source is equality of
  identities, never equality of contents.
\<close>

type_synonym nid = nat

text \<open>
  The store opcodes. \<open>memory_size()\<close> of a store is \<open>type2aelembytes\<close> of its value
  basic type (memnode.hpp): one byte for StoreB, two for StoreC, four for StoreI, eight for
  StoreL; a vector store carries the byte length of its vector type.
\<close>

datatype opcode =
    Op_StoreB | Op_StoreC | Op_StoreI | Op_StoreL | Op_StoreF | Op_StoreD
  | Op_StoreP | Op_StoreN | Op_StoreVector int

fun opcode_memory_size :: "opcode \<Rightarrow> int" where
  "opcode_memory_size Op_StoreB = 1"
| "opcode_memory_size Op_StoreC = 2"
| "opcode_memory_size Op_StoreI = 4"
| "opcode_memory_size Op_StoreL = 8"
| "opcode_memory_size Op_StoreF = 4"
| "opcode_memory_size Op_StoreD = 8"
| "opcode_memory_size Op_StoreP = 8"
| "opcode_memory_size Op_StoreN = 4"
| "opcode_memory_size (Op_StoreVector n) = n"

section \<open>StoreNode::hash and StoreNode::cmp\<close>

text \<open>
  A store node: its identity, its opcode and its four inputs \<open>in(Control)\<close>,
  \<open>in(Memory)\<close>, \<open>in(Address)\<close>, \<open>in(ValueIn)\<close> (a null input is \<open>None\<close>).
\<close>

record StoreNode =
  st_idx :: nid
  st_Opcode :: opcode
  st_Control :: "nid option"
  st_Memory :: "nid option"
  st_Address :: "nid option"
  st_ValueIn :: "nid option"

text \<open>\<open>Node::NO_HASH\<close> (node.hpp): the hash of a node that is never put in the table.\<close>

definition NO_HASH :: nat where
  "NO_HASH = 0"

text \<open>\<open>uint StoreNode::hash() const { return NO_HASH; }\<close>\<close>

definition StoreNode_hash :: "StoreNode \<Rightarrow> nat" where
  "StoreNode_hash this = NO_HASH"

text \<open>\<open>bool StoreNode::cmp(const Node &n) const { return (&n == this); }\<close>\<close>

definition StoreNode_cmp :: "StoreNode \<Rightarrow> StoreNode \<Rightarrow> bool" where
  "StoreNode_cmp this n = (st_idx n = st_idx this)"

text \<open>The inputs of a store, as value numbering would compare them.\<close>

definition same_inputs :: "StoreNode \<Rightarrow> StoreNode \<Rightarrow> bool" where
  "same_inputs a b =
     (st_Opcode a = st_Opcode b \<and> st_Control a = st_Control b \<and> st_Memory a = st_Memory b
      \<and> st_Address a = st_Address b \<and> st_ValueIn a = st_ValueIn b)"

text \<open>
  Modelled from the spec: the hash table of global value numbering lives in phaseX.cpp,
  outside memnode.cpp. A node \<open>n\<close> is replaced by a node \<open>k\<close> already in the table only
  when the hash of \<open>n\<close> is not the sentinel, both hashes agree and \<open>n.cmp(k)\<close> holds.
\<close>

definition gvn_identifies :: "StoreNode \<Rightarrow> StoreNode \<Rightarrow> bool" where
  "gvn_identifies n k =
     (StoreNode_hash n \<noteq> NO_HASH \<and> StoreNode_hash n = StoreNode_hash k \<and> StoreNode_cmp n k)"

section \<open>LoadBNode::Value and LoadUBNode::Value\<close>

text \<open>
  An integer type of the compiler's lattice (\<open>TypeInt\<close>, type.hpp) is a range of
  \<open>jint\<close> values; \<open>TypeInt::make(con)\<close> is the singleton range, and a type is
  \<open>higher_equal\<close> another when its range lies inside the other's.
\<close>

record TypeInt =
  ty_lo :: int
  ty_hi :: int

definition TypeInt_make :: "32 word \<Rightarrow> TypeInt" where
  "TypeInt_make con = \<lparr>ty_lo = sint con, ty_hi = sint con\<rparr>"

definition higher_equal :: "TypeInt \<Rightarrow> TypeInt \<Rightarrow> bool" where
  "higher_equal t u = (ty_lo u \<le> ty_lo t \<and> ty_hi t \<le> ty_hi u)"

definition TypeInt_BYTE :: TypeInt where
  "TypeInt_BYTE = \<lparr>ty_lo = -128, ty_hi = 127\<rparr>"

definition TypeInt_UBYTE :: TypeInt where
  "TypeInt_UBYTE = \<lparr>ty_lo = 0, ty_hi = 255\<rparr>"

text \<open>
  The value node that \<open>can_see_stored_value\<close> found: an integer constant (\<open>is_Con()\<close>,
  \<open>get_int()\<close>) or some other node with its bottom type.
\<close>

datatype value_node = ConI "32 word" | NonCon TypeInt

fun is_Con :: "value_node \<Rightarrow> bool" where
  "is_Con (ConI c) = True"
| "is_Con (NonCon t) = False"

fun value_bottom_type :: "value_node \<Rightarrow> TypeInt" where
  "value_bottom_type (ConI c) = TypeInt_make c"
| "value_bottom_type (NonCon t) = t"

text \<open>
  \<open>LoadBNode::Value\<close>: \<open>value\<close> is the result of \<open>can_see_stored_value(mem, phase)\<close>
  (\<open>None\<close> for null), \<open>ty\<close> the load's \<open>_type\<close>, and \<open>load_value\<close> what
  \<open>LoadNode::Value(phase)\<close> returns. \<open>(con << 24) >> 24\<close> is computed on \<open>jint\<close>: the
  left shift wraps and the right shift is arithmetic. \<open>get_int()\<close> is read off a constant
  only.
\<close>

definition LoadBNode_Value :: "value_node option \<Rightarrow> TypeInt \<Rightarrow> TypeInt \<Rightarrow> TypeInt" where
  "LoadBNode_Value val ty load_value =
     (case val of
        None \<Rightarrow> load_value
      | Some value \<Rightarrow>
          if is_Con value \<and> \<not> higher_equal (value_bottom_type value) ty
          then (case value of
                  ConI con \<Rightarrow> TypeInt_make (signed_drop_bit 24 (push_bit 24 con))
                | NonCon t \<Rightarrow> load_value)
          else load_value)"

text \<open>\<open>LoadUBNode::Value\<close>: the same, with \<open>con & 0xFF\<close>.\<close>

definition LoadUBNode_Value :: "value_node option \<Rightarrow> TypeInt \<Rightarrow> TypeInt \<Rightarrow> TypeInt" where
  "LoadUBNode_Value val ty load_value =
     (case val of
        None \<Rightarrow> load_value
      | Some value \<Rightarrow>
          if is_Con value \<and> \<not> higher_equal (value_bottom_type value) ty
          then (case value of
                  ConI con \<Rightarrow> TypeInt_make (con AND 0xFF)
                | NonCon t \<Rightarrow> load_value)
          else load_value)"

section \<open>MergeMemNode\<close>

text \<open>
  The alias indexes that are hardwired (compile.hpp); the comments of memnode.cpp give
  \<open>in(AliasIdxTop)\<close> as \<open>in(1)\<close> and \<open>in(AliasIdxRaw)\<close> as \<open>in(3)\<close>.
\<close>

definition AliasIdxTop :: nat where
  "AliasIdxTop = 1"

definition AliasIdxBot :: nat where
  "AliasIdxBot = 2"

definition AliasIdxRaw :: nat where
  "AliasIdxRaw = 3"

text \<open>
  The nodes of the graph, with the inputs and attributes that the memory optimizer reads.
  \<^item> \<open>MergeMem e b s\<close>: \<open>in(AliasIdxTop) = e\<close> (the top node, \<open>empty_memory()\<close>),
    \<open>in(AliasIdxBot) = b\<close> (\<open>base_memory()\<close>) and \<open>in(AliasIdxRaw + k) = s ! k\<close>; so
    \<open>req() = AliasIdxRaw + length s\<close>. \<open>in(0)\<close>, the control input, is null and no method
    of MergeMemNode reads it. \<open>verify_sparse\<close> asserts that no slice input is null
    ("sane slice"), so the inputs are node identities.
  \<^item> \<open>Store opc mem adr val\<close>: a store with its opcode, \<open>in(Memory)\<close>, \<open>in(Address)\<close>
    and \<open>in(ValueIn)\<close>.
  \<^item> \<open>Proj n\<close>: a projection with \<open>in(0) = n\<close>.
  \<^item> \<open>Allocate mem hdr\<close>: an allocation with \<open>in(TypeFunc::Memory)\<close> and
    \<open>minimum_header_size()\<close>.
  \<^item> \<open>Initialize init\<close>: an initialization barrier with \<open>in(Memory)\<close>,
    \<open>allocation()\<close> (null is \<open>None\<close>), \<open>is_complete()\<close>, \<open>zero_memory()\<close> and
    the captured raw stores \<open>in(RawStores) .. in(req()-1)\<close>.
  \<^item> \<open>Call mem\<close>, \<open>MemBar opc mem\<close>: with \<open>in(TypeFunc::Memory)\<close>. \<open>Call\<close> is a call
    that is not an allocation; an \<open>AllocateNode\<close> is a \<open>CallNode\<close> too, so \<open>is_Call()\<close>
    holds of \<open>Allocate\<close> and of \<open>Call\<close>. An \<open>InitializeNode\<close> is a \<open>MemBarNode\<close> whose
    opcode is none of the memory barrier opcodes.
  \<^item> \<open>Con\<close>: a constant node other than top; \<open>Top\<close>: the top node of the compilation,
    which is a \<open>ConNode\<close> of type top, so \<open>is_Con()\<close> holds of both.
\<close>

datatype membar_opcode =
    Op_MemBarAcquire | Op_MemBarAcquireLock | Op_LoadFence | Op_MemBarRelease
  | Op_StoreFence | Op_MemBarReleaseLock | Op_MemBarStoreStore | Op_StoreStoreFence
  | Op_MemBarCPUOrder | Op_MemBarVolatile

record InitializeNode =
  init_Memory :: nid
  allocation :: "nid option"
  is_complete :: bool
  zero_memory :: nid
  raw_in :: "nid list"

datatype node =
    MergeMem (empty_memory: nid) (base_memory: nid) (slices: "nid list")
  | Store opcode nid nid nid
  | Proj nid
  | Allocate nid int
  | Initialize InitializeNode
  | Call nid
  | MemBar membar_opcode nid
  | ClearArray
  | Phi "nid list"
  | Con
  | Top
  | Other

type_synonym graph = "nid \<Rightarrow> node"

definition is_MergeMem :: "graph \<Rightarrow> nid \<Rightarrow> bool" where
  "is_MergeMem g n = (case g n of MergeMem e b s \<Rightarrow> True | _ \<Rightarrow> False)"

definition is_top :: "graph \<Rightarrow> nid \<Rightarrow> bool" where
  "is_top g n = (case g n of Top \<Rightarrow> True | _ \<Rightarrow> False)"

text \<open>\<open>req()\<close> and \<open>in(i)\<close> of a MergeMem, for \<open>AliasIdxTop \<le> i < req()\<close>.\<close>

definition req :: "node \<Rightarrow> nat" where
  "req m = AliasIdxRaw + length (slices m)"

definition in_at :: "node \<Rightarrow> nat \<Rightarrow> nid" where
  "in_at m i =
     (if i = AliasIdxTop then empty_memory m
      else if i = AliasIdxBot then base_memory m
      else slices m ! (i - AliasIdxRaw))"

text \<open>
  \<open>is_empty_memory(n)\<close> (memnode.hpp) is \<open>n->is_top()\<close>, asserted to be the same as
  \<open>n == empty_memory()\<close>: the top node is unique in a compilation.
\<close>

definition is_empty_memory :: "node \<Rightarrow> nid \<Rightarrow> bool" where
  "is_empty_memory m n = (n = empty_memory m)"

text \<open>
  \<open>MergeMemNode::memory_at\<close>, for a slice index (\<open>alias_idx \<ge> AliasIdxRaw\<close>, as the
  source asserts).
\<close>

definition memory_at :: "node \<Rightarrow> nat \<Rightarrow> nid" where
  "memory_at m alias_idx =
     (let n = (if alias_idx < req m then in_at m alias_idx else empty_memory m)
      in if is_empty_memory m n then base_memory m else n)"

text \<open>\<open>add_req(empty_mem)\<close>, \<open>k\<close> times, and \<open>set_req(i, n)\<close> on an input \<open>i < req()\<close>.\<close>

definition add_reqs :: "node \<Rightarrow> nat \<Rightarrow> nid \<Rightarrow> node" where
  "add_reqs m k n = MergeMem (empty_memory m) (base_memory m) (slices m @ replicate k n)"

definition set_req :: "node \<Rightarrow> nat \<Rightarrow> nid \<Rightarrow> node" where
  "set_req m i n =
     (if i = AliasIdxTop then MergeMem n (base_memory m) (slices m)
      else if i = AliasIdxBot then MergeMem (empty_memory m) n (slices m)
      else MergeMem (empty_memory m) (base_memory m) ((slices m)[i - AliasIdxRaw := n]))"

text \<open>
  \<open>MergeMemNode::set_memory_at\<close>. The do-while loop adds the sentinel until
  \<open>req() = need_req\<close>; it is entered only when \<open>req() < need_req\<close>.
\<close>

definition set_memory_at :: "node \<Rightarrow> nat \<Rightarrow> nid \<Rightarrow> node" where
  "set_memory_at m alias_idx n0 =
     (let empty_mem = empty_memory m;
          n = (if n0 = base_memory m then empty_mem else n0);
          need_req = alias_idx + 1
      in if req m < need_req then
           (if n = empty_mem then m
            else set_req (add_reqs m (need_req - req m) empty_mem) alias_idx n)
         else set_req m alias_idx n)"

text \<open>
  \<open>MergeMemNode::set_base_memory\<close>: the base is set and the other occurrences of the new
  base are cleared.
\<close>

definition set_base_memory :: "node \<Rightarrow> nid \<Rightarrow> node" where
  "set_base_memory m new_base =
     (let empty_mem = empty_memory m
      in if new_base \<noteq> empty_mem
         then MergeMem empty_mem new_base
                (map (\<lambda>x. if x = new_base then empty_mem else x) (slices m))
         else MergeMem empty_mem new_base (slices m))"

text \<open>
  \<open>MergeMemNode::grow_to_match\<close>: \<open>i\<close> runs down from \<open>other->req() - 1\<close> to
  \<open>req()\<close>; at the first input of \<open>other\<close> that is not the sentinel the node grows to
  \<open>i + 1\<close> inputs.
\<close>

definition grow_to_match :: "node \<Rightarrow> node \<Rightarrow> node" where
  "grow_to_match m other =
     (let empty_mem = empty_memory m
      in case filter (\<lambda>i. in_at other i \<noteq> empty_mem) (rev [req m ..< req other]) of
           [] \<Rightarrow> m
         | i # rest \<Rightarrow> add_reqs m (i + 1 - req m) empty_mem)"

text \<open>\<open>MergeMemNode::verify_sparse\<close>.\<close>

definition verify_sparse :: "node \<Rightarrow> bool" where
  "verify_sparse m =
     (let base_mem = base_memory m
      in if is_empty_memory m base_mem then True
         else list_all (\<lambda>x. x \<noteq> base_mem) (slices m))"

text \<open>
  The body of the loop "Look at each slice" of \<open>MergeMemNode::Ideal\<close>: from the old input
  \<open>in(i)\<close> to the new one. \<open>set_req_X\<close> changes only the input of this node, and the
  loop reads the inputs of other nodes only, so the iterations do not depend on each other.
\<close>

definition Ideal_slice :: "graph \<Rightarrow> nid \<Rightarrow> nid \<Rightarrow> nid \<Rightarrow> nid \<Rightarrow> nat \<Rightarrow> nid \<Rightarrow> nid" where
  "Ideal_slice g this empty_mem old_base new_base i old_in =
     (let old_mem = (if old_in = empty_mem then old_base else old_in);
          new_mem =
            (if is_MergeMem g old_mem then
               (if old_mem = this
                then (if new_base = this \<or> new_base = empty_mem then empty_mem else new_base)
                else memory_at (g old_mem) i)
             else old_mem)
      in if new_mem = new_base then empty_mem else new_mem)"

text \<open>
  The loop "Look at each slice" of \<open>MergeMemNode::Ideal\<close> over the inputs
  \<open>in(AliasIdxRaw) .. in(req()-1)\<close> of the node \<open>m1\<close> (this node, after
  \<open>grow_to_match\<close>): the new inputs.
\<close>

definition Ideal_slices :: "graph \<Rightarrow> nid \<Rightarrow> nid \<Rightarrow> nid \<Rightarrow> nid \<Rightarrow> node \<Rightarrow> nid list" where
  "Ideal_slices g this empty_mem old_base new_base m1 =
     map (\<lambda>(i, old_in). Ideal_slice g this empty_mem old_base new_base i old_in)
       (zip [AliasIdxRaw ..< req m1] (slices m1))"

text \<open>
  The block "Resolve external cycles by calling Ideal on a MergeMem base_memory" of
  \<open>MergeMemNode::Ideal\<close>: the base memory after it. \<open>transform\<close> stands for
  \<open>phase->transform(new_mbase)\<close> (phaseX.cpp; null is \<open>None\<close>): only its answer is
  used, the rewrites it may perform on other nodes are not tracked.
\<close>

definition Ideal_rollup :: "(nid \<Rightarrow> nid option) \<Rightarrow> graph \<Rightarrow> nid \<Rightarrow> nid \<Rightarrow> nid" where
  "Ideal_rollup transform g empty_mem base =
     (if is_MergeMem g base then
        (case transform base of
           None \<Rightarrow> base
         | Some m \<Rightarrow>
             if is_top g m \<or> (is_MergeMem g m \<and> base_memory (g m) = empty_mem)
             then empty_mem else base)
      else base)"

text \<open>
  \<open>MergeMemNode::Ideal\<close> on the node \<open>this\<close> of the graph; the result is the graph with
  the rewritten node and whether progress is reported (\<open>return progress\<close> is \<open>this\<close> or
  null). The last block of the source, which pushes a Phi on the worklist, changes
  neither the node nor the result. A node that is not a MergeMem has no such method: the
  graph is returned as it is.
\<close>

definition MergeMemNode_Ideal ::
  "(nid \<Rightarrow> nid option) \<Rightarrow> graph \<Rightarrow> nid \<Rightarrow> bool \<Rightarrow> graph \<times> bool" where
  "MergeMemNode_Ideal transform g this can_reshape =
     (case g this of
        MergeMem empty_mem old_base sl \<Rightarrow>
          if old_base = empty_mem then (g, False)
          else
            let old_mbase = is_MergeMem g old_base;
                new_base = (if old_mbase then base_memory (g old_base) else old_base);
                m1 = (if old_mbase then grow_to_match (g this) (g old_base) else g this);
                new_ins = Ideal_slices g this empty_mem old_base new_base m1;
                progress1 = (new_ins \<noteq> slices m1);
                progress2 = (progress1 \<or> new_base \<noteq> old_base);
                base2 = (if new_base = this then empty_mem else new_base);
                g2 = g(this := MergeMem empty_mem base2 new_ins);
                base3 = Ideal_rollup transform g2 empty_mem base2;
                progress3 = (progress2 \<or> base3 = empty_mem);
                ins3 = (if base3 = empty_mem \<and> \<not> can_reshape
                        then map (\<lambda>x. empty_mem) new_ins else new_ins)
            in (g(this := MergeMem empty_mem base3 ins3), progress3)
      | _ \<Rightarrow> (g, False))"

text \<open>
  The sparse invariant in the words of the specification: no explicitly stored slice input
  (an input that is not the sentinel) equals the base memory.
\<close>

definition sparse_slots :: "node \<Rightarrow> bool" where
  "sparse_slots m = list_all (\<lambda>x. x \<noteq> empty_memory m \<longrightarrow> x \<noteq> base_memory m) (slices m)"

text \<open>Example graphs: a chain of stacked merges, and a flat merge with a copy of its base.\<close>

definition g_chain :: graph where
  "g_chain = (\<lambda>n. Other)(0 := Top, 10 := MergeMem 0 20 [11], 11 := MergeMem 0 21 [12],
                12 := MergeMem 0 22 [13])"

definition g_flat :: graph where
  "g_flat = (\<lambda>n. Other)(0 := Top, 10 := MergeMem 0 20 [21, 20])"

section \<open>InitializeNode\<close>

text \<open>
  What the optimizer asks of its environment (\<open>PhaseValues* phase\<close>, the flags of the VM
  and helpers that are not in memnode.cpp or that read parts of the graph this model does
  not carry):
  \<^item> \<open>Ideal_base_and_offset adr\<close> is \<open>AddPNode::Ideal_base_and_offset(adr, phase, offset)\<close>:
    the base (null is \<open>None\<close>) and the value left in \<open>offset\<close>;
  \<^item> \<open>Ideal_allocation ptr\<close> is \<open>AllocateNode::Ideal_allocation(ptr)\<close> for a pointer that
    is not null;
  \<^item> \<open>bottom_type_base adr\<close> is \<open>adr->bottom_type()->base()\<close>;
  \<^item> \<open>all_controls_dominate dom sub\<close> is \<open>MemNode::all_controls_dominate(dom, sub)\<close>;
  \<^item> \<open>find_previous_arraycopy ld_alloc mem\<close> is
    \<open>find_previous_arraycopy(phase, ld_alloc, mem, false)\<close>: whether the result is not null,
    and the value left in \<open>mem\<close>;
  \<^item> \<open>call_may_modify call\<close> is \<open>call->may_modify(addr_t, phase)\<close>,
    \<open>ArrayCopy_may_modify mb\<close> is \<open>ArrayCopyNode::may_modify(addr_t, mb, phase, ac)\<close>, and
    \<open>ClearArray_step_through mem\<close> is \<open>ClearArrayNode::step_through(&mem, instance_id, phase)\<close>:
    the value left in \<open>mem\<close> when the result is true, and \<open>None\<close> when it is false (the
    source then leaves \<open>mem\<close> as it is);
  \<^item> \<open>clone_basic_allocation mb\<close> is, for the memory barrier \<open>mb\<close>, what
    \<open>MemNode::find_array_copy_clone\<close> reads behind it: the allocation
    \<open>AllocateNode::Ideal_allocation(ac->in(ArrayCopyNode::Dest))\<close> of the array copy \<open>ac\<close>
    found through \<open>mb->in(0)\<close> (directly or by \<open>step_over_gc_barrier\<close>) when \<open>ac\<close> is not
    null and \<open>ac->is_clonebasic()\<close>; \<open>None\<close> when there is no such array copy or the
    allocation is null;
  \<^item> \<open>eqv_uncast a b\<close> is \<open>a->eqv_uncast(b, true)\<close>, \<open>StoreVector_vect_type st\<close> is
    \<open>st->as_StoreVector()->vect_type()\<close>, \<open>zerocon bt\<close> is \<open>phase->zerocon(bt)\<close>;
  \<^item> \<open>boxed_value_input ld\<close> is the node that the block "Load boxed value from result of
    valueOf() call is input parameter" of \<open>can_see_stored_value\<close> returns for the load
    \<open>ld\<close>, \<open>None\<close> when it returns nothing;
  \<^item> \<open>type_higher_equal value ld\<close> is \<open>phase->type(value)->higher_equal(phase->type(ld))\<close>;
  \<^item> \<open>same_inst_field_phi ld\<close> is the phi that the search "for an existing data phi" at
    the end of \<open>LoadNode::Identity\<close> returns for the load \<open>ld\<close>, \<open>None\<close> when that part
    returns \<open>this\<close>;
  \<^item> the flags \<open>MaxVectorSize\<close>, \<open>TrackedInitializationLimit\<close> and \<open>ReduceBulkZeroing\<close>.
\<close>

datatype type_base = RawPtr | AnyPtr | OopPtr | OtherBase

datatype basic_type =
    T_BOOLEAN | T_CHAR | T_FLOAT | T_DOUBLE | T_BYTE | T_SHORT | T_INT | T_LONG
  | T_OBJECT | T_ARRAY | T_VOID | T_ADDRESS | T_NARROWOOP

record phase =
  Ideal_base_and_offset :: "nid \<Rightarrow> nid option \<times> int"
  Ideal_allocation :: "nid \<Rightarrow> nid option"
  bottom_type_base :: "nid \<Rightarrow> type_base"
  all_controls_dominate :: "nid \<Rightarrow> nid \<Rightarrow> bool"
  find_previous_arraycopy :: "nid option \<Rightarrow> nid \<Rightarrow> bool \<times> nid"
  call_may_modify :: "nid \<Rightarrow> bool"
  ArrayCopy_may_modify :: "nid \<Rightarrow> bool"
  ClearArray_step_through :: "nid \<Rightarrow> nid option"
  clone_basic_allocation :: "nid \<Rightarrow> nid option"
  eqv_uncast :: "nid \<Rightarrow> nid \<Rightarrow> bool"
  StoreVector_vect_type :: "nid \<Rightarrow> nat"
  zerocon :: "basic_type \<Rightarrow> nid"
  boxed_value_input :: "nid \<Rightarrow> nid option"
  type_higher_equal :: "nid \<Rightarrow> nid \<Rightarrow> bool"
  same_inst_field_phi :: "nid \<Rightarrow> nid option"
  MaxVectorSize :: int
  TrackedInitializationLimit :: int
  ReduceBulkZeroing :: bool

text \<open>\<open>Type::OffsetBot\<close> (type.hpp): "any possible offset".\<close>

definition OffsetBot :: int where
  "OffsetBot = -2000000001"

text \<open>
  An environment for the examples: no address decomposes, nothing is an allocation, no
  helper has an answer.
\<close>

definition phase0 :: phase where
  "phase0 = \<lparr>Ideal_base_and_offset = (\<lambda>adr. (None, OffsetBot)),
             Ideal_allocation = (\<lambda>p. None),
             bottom_type_base = (\<lambda>adr. OopPtr),
             all_controls_dominate = (\<lambda>dom sub. False),
             find_previous_arraycopy = (\<lambda>ld_alloc mem. (False, mem)),
             call_may_modify = (\<lambda>call. True),
             ArrayCopy_may_modify = (\<lambda>mb. True),
             ClearArray_step_through = (\<lambda>mem. None),
             clone_basic_allocation = (\<lambda>mb. None),
             eqv_uncast = (\<lambda>a b. a = b),
             StoreVector_vect_type = (\<lambda>st. 0),
             zerocon = (\<lambda>bt. 900),
             boxed_value_input = (\<lambda>ld. None),
             type_higher_equal = (\<lambda>value ld. True),
             same_inst_field_phi = (\<lambda>ld. None),
             MaxVectorSize = 16, TrackedInitializationLimit = 50,
             ReduceBulkZeroing = True\<rparr>"

definition BytesPerLong :: int where
  "BytesPerLong = 8"

definition HeapWordSize :: int where
  "HeapWordSize = 8"

text \<open>
  \<open>InitializeNode::RawStores\<close> (memnode.hpp), the index of the first captured store:
  \<open>TypeFunc::Parms + 1\<close>.
\<close>

definition RawStores :: nat where
  "RawStores = 6"

definition MAX_STORE :: "phase \<Rightarrow> int" where
  "MAX_STORE ph = max BytesPerLong (MaxVectorSize ph)"

text \<open>\<open>st->as_Store()->memory_size()\<close>.\<close>

definition memory_size :: "graph \<Rightarrow> nid \<Rightarrow> int" where
  "memory_size g st = (case g st of Store opc mem adr val \<Rightarrow> opcode_memory_size opc | _ \<Rightarrow> 0)"

text \<open>\<open>allocation()->minimum_header_size()\<close>.\<close>

definition minimum_header_size :: "graph \<Rightarrow> nid \<Rightarrow> int" where
  "minimum_header_size g a = (case g a of Allocate mem hdr \<Rightarrow> hdr | _ \<Rightarrow> 0)"

text \<open>\<open>InitializeNode::get_store_offset\<close>.\<close>

definition get_store_offset :: "phase \<Rightarrow> graph \<Rightarrow> nid \<Rightarrow> int" where
  "get_store_offset ph g st =
     (case g st of
        Store opc mem adr val \<Rightarrow>
          (case Ideal_base_and_offset ph adr of
             (None, offset) \<Rightarrow> -1
           | (Some base, offset) \<Rightarrow> if offset < 0 then -1 else offset)
      | _ \<Rightarrow> -1)"

text \<open>
  The loop of \<open>InitializeNode::captured_store_insertion_point\<close> from the input \<open>i\<close> on,
  \<open>ins\<close> being \<open>in(i) .. in(limit-1)\<close>; \<open>FAIL\<close> is 0.
\<close>

fun insertion_point_loop ::
  "phase \<Rightarrow> graph \<Rightarrow> nid \<Rightarrow> int \<Rightarrow> int \<Rightarrow> nat \<Rightarrow> nid list \<Rightarrow> int" where
  "insertion_point_loop ph g zmem start size_in_bytes i [] = - int i"
| "insertion_point_loop ph g zmem start size_in_bytes i (st # ins) =
     (let st_off = get_store_offset ph g st
      in if st_off < 0 then
           (if st \<noteq> zmem then 0
            else insertion_point_loop ph g zmem start size_in_bytes (i + 1) ins)
         else if st_off > start then
           (if st_off < start + size_in_bytes then 0 else - int i)
         else if st_off < start then
           (if size_in_bytes \<noteq> 0 \<and> start < st_off + MAX_STORE ph
               \<and> start < st_off + memory_size g st
            then 0
            else insertion_point_loop ph g zmem start size_in_bytes (i + 1) ins)
         else
           (if size_in_bytes \<noteq> 0 \<and> memory_size g st \<noteq> size_in_bytes then 0
            else int i))"

text \<open>
  \<open>InitializeNode::captured_store_insertion_point\<close>. The source asserts that
  \<open>allocation()\<close> is not null; the model fails there.
\<close>

definition captured_store_insertion_point ::
  "phase \<Rightarrow> graph \<Rightarrow> InitializeNode \<Rightarrow> int \<Rightarrow> int \<Rightarrow> int" where
  "captured_store_insertion_point ph g init start size_in_bytes =
     (if is_complete init then 0
      else case allocation init of
        None \<Rightarrow> 0
      | Some a \<Rightarrow>
          if start < minimum_header_size g a then 0
          else if start \<ge> TrackedInitializationLimit ph * HeapWordSize then 0
          else insertion_point_loop ph g (zero_memory init) start size_in_bytes RawStores
                 (raw_in init))"
















section \<open>MemNode::find_previous_store\<close>

text \<open>
  The memory access \<open>this\<close> (a load or a store) that looks for its previous store: its
  identity, \<open>in(MemNode::Address)\<close>, \<open>in(MemNode::Memory)\<close>, \<open>memory_size()\<close>,
  \<open>phase->C->get_alias_index(adr_type())\<close>, and whether \<open>addr_t\<close> (the address type as an
  oop pointer) is not null and \<open>is_known_instance_field()\<close>; and, for a load,
  \<open>store_Opcode()\<close>, \<open>value_basic_type()\<close>, \<open>as_LoadVector()->vect_type()\<close>,
  \<open>has_pinned_control_dependency()\<close>, and from the alias type \<open>atp\<close> of its address:
  \<open>skip_through_membars(atp, tp, eliminate_boxing)\<close>, \<open>atp->index()\<close> and
  \<open>!atp->is_rewritable()\<close>.
\<close>

record MemNode =
  this_idx :: nid
  in_Address :: nid
  in_Memory :: nid
  this_memory_size :: int
  alias_idx :: nat
  known_instance_field :: bool
  store_Opcode :: opcode
  value_basic_type :: basic_type
  this_vect_type :: nat
  has_pinned_control_dependency :: bool
  skip_through_membars :: bool
  atp_index :: nat
  is_final_mem :: bool

text \<open>\<open>MemNode::check_if_adr_maybe_raw\<close>, for an address that is not null.\<close>

definition check_if_adr_maybe_raw :: "phase \<Rightarrow> nid \<Rightarrow> bool" where
  "check_if_adr_maybe_raw ph adr =
     (bottom_type_base ph adr = RawPtr \<or> bottom_type_base ph adr = AnyPtr)"

text \<open>\<open>n->is_Con()\<close>: the constant nodes, the top node among them.\<close>

definition node_is_Con :: "graph \<Rightarrow> nid \<Rightarrow> bool" where
  "node_is_Con g p = (case g p of Con \<Rightarrow> True | Top \<Rightarrow> True | _ \<Rightarrow> False)"

text \<open>
  Arithmetic on \<open>intptr_t\<close> (64 bits): the value of a sum or difference after
  wrap-around. Offsets are carried as integers; where the source adds to or subtracts
  from an offset, the result is wrapped.
\<close>

definition intptr :: "int \<Rightarrow> int" where
  "intptr x = (x + 2 ^ 63) mod 2 ^ 64 - 2 ^ 63"

text \<open>
  \<open>MemNode::detect_ptr_independence(p1, a1, p2, a2, phase)\<close>. The caller passes a \<open>p2\<close>
  that is not null. A null \<open>p1\<close> does not reach this function (the caller has returned
  when the offset is \<open>OffsetBot\<close>, which is what a null base comes with); the model answers
  false there.
\<close>

definition detect_ptr_independence ::
  "phase \<Rightarrow> graph \<Rightarrow> nid option \<Rightarrow> nid option \<Rightarrow> nid \<Rightarrow> nid option \<Rightarrow> bool" where
  "detect_ptr_independence ph g p1 a1 p2 a2 =
     (case (a1, a2) of
        (None, None) \<Rightarrow>
          p1 \<noteq> Some p2 \<and> (case p1 of None \<Rightarrow> False | Some q \<Rightarrow> node_is_Con g q)
          \<and> node_is_Con g p2
      | (Some x, Some y) \<Rightarrow> x \<noteq> y
      | (Some x, None) \<Rightarrow> all_controls_dominate ph p2 x
      | (None, Some y) \<Rightarrow>
          (case p1 of None \<Rightarrow> False | Some q \<Rightarrow> all_controls_dominate ph q y))"

text \<open>\<open>InitializeNode::memory(alias_idx)\<close>.\<close>

definition InitializeNode_memory :: "graph \<Rightarrow> InitializeNode \<Rightarrow> nat \<Rightarrow> nid" where
  "InitializeNode_memory g init idx =
     (let mem = init_Memory init
      in if is_MergeMem g mem then memory_at (g mem) idx else mem)"

text \<open>
  One trip around the loop of \<open>find_previous_store\<close>, after the cycle limiter: the loop
  goes on with another memory state (\<open>continue\<close>), returns \<open>mem\<close>, or is left by
  \<open>break\<close>, after which the function returns null. The projection of an allocation is
  the projection of a call (\<open>mem->in(0)->is_Call()\<close>); the projection of an
  initialization barrier never reaches the test \<open>mem->in(0)->is_MemBar()\<close>, its own
  branch being taken first.
\<close>

datatype step = Continue nid | Return_mem nid | Break

definition find_previous_store_step ::
  "phase \<Rightarrow> graph \<Rightarrow> MemNode \<Rightarrow> nid option \<Rightarrow> int \<Rightarrow> nid option \<Rightarrow> bool \<Rightarrow> nid \<Rightarrow> step" where
  "find_previous_store_step ph g this base offset alloc adr_maybe_raw mem =
     (case g mem of
        Store opc st_mem st_adr st_val \<Rightarrow>
          (case Ideal_base_and_offset ph st_adr of
             (None, st_offset) \<Rightarrow> Break
           | (Some st_base, st_offset) \<Rightarrow>
               if (adr_maybe_raw \<or> check_if_adr_maybe_raw ph st_adr) \<and> Some st_base \<noteq> base
               then Break
               else if st_offset \<noteq> offset \<and> st_offset \<noteq> OffsetBot
                       \<and> (st_offset \<ge> intptr (offset + this_memory_size this)
                            \<or> st_offset \<le> intptr (offset - MAX_STORE ph)
                            \<or> st_offset \<le> intptr (offset - memory_size g mem))
               then Continue st_mem
               else if Some st_base \<noteq> base
                       \<and> detect_ptr_independence ph g base alloc st_base
                            (Ideal_allocation ph st_base)
               then Continue st_mem
               else if Some st_base = base \<and> st_offset = offset then Return_mem mem
               else Break)
      | Proj in0 \<Rightarrow>
          (case g in0 of
             Initialize st_init \<Rightarrow>
               (case allocation st_init of
                  None \<Rightarrow> Break
                | Some st_alloc \<Rightarrow>
                    if alloc = Some st_alloc then Return_mem mem
                    else if alloc \<noteq> None \<or> all_controls_dominate ph (this_idx this) st_alloc
                    then
                      (if alias_idx this = AliasIdxRaw
                       then (case g st_alloc of
                               Allocate alloc_mem hdr \<Rightarrow> Continue alloc_mem
                             | _ \<Rightarrow> Break)
                       else Continue (InitializeNode_memory g st_init (alias_idx this)))
                    else Break)
           | in0_node \<Rightarrow>
               (case find_previous_arraycopy ph alloc mem of
                  (True, mem') \<Rightarrow> if mem \<noteq> mem' then Continue mem' else Return_mem mem'
                | (False, mem') \<Rightarrow>
                    if known_instance_field this then
                      (case in0_node of
                         Call call_mem \<Rightarrow>
                           if \<not> call_may_modify ph in0 then Continue call_mem else Break
                       | Allocate call_mem hdr \<Rightarrow>
                           if \<not> call_may_modify ph in0 then Continue call_mem else Break
                       | MemBar mb_opc mb_mem \<Rightarrow>
                           if ArrayCopy_may_modify ph in0 then Break else Continue mb_mem
                       | _ \<Rightarrow> Break)
                    else Break))
      | mem_node \<Rightarrow>
          (case find_previous_arraycopy ph alloc mem of
             (True, mem') \<Rightarrow> if mem \<noteq> mem' then Continue mem' else Return_mem mem'
           | (False, mem') \<Rightarrow>
               if known_instance_field this then
                 (case mem_node of
                    ClearArray \<Rightarrow>
                      (case ClearArray_step_through ph mem of
                         Some mem'' \<Rightarrow> Continue mem''
                       | None \<Rightarrow> Return_mem mem)
                  | MergeMem e b sl \<Rightarrow> Continue (memory_at mem_node (alias_idx this))
                  | _ \<Rightarrow> Break)
               else Break))"

text \<open>
  The loop \<open>for (;;) { if (--cnt < 0) break; ... }\<close> around a body; the result is the
  node returned, \<open>None\<close> for null.
\<close>

function find_previous_store_loop :: "(nid \<Rightarrow> step) \<Rightarrow> int \<Rightarrow> nid \<Rightarrow> nid option" where
  "find_previous_store_loop body cnt mem =
     (if cnt - 1 < 0 then None
      else case body mem of
             Continue mem' \<Rightarrow> find_previous_store_loop body (cnt - 1) mem'
           | Return_mem m \<Rightarrow> Some m
           | Break \<Rightarrow> None)"
  by pat_completeness auto

termination
  by (relation "measure (\<lambda>(body, cnt, mem). nat cnt)") auto

declare find_previous_store_loop.simps [simp del]

text \<open>
  \<open>MemNode::find_previous_store\<close>: the body of its loop for the access \<open>this\<close>, with the
  base, offset and allocation of the address of \<open>this\<close> as the function computes them
  before the loop, and the function.
\<close>

definition find_previous_store_body :: "phase \<Rightarrow> graph \<Rightarrow> MemNode \<Rightarrow> nid \<Rightarrow> step" where
  "find_previous_store_body ph g this =
     (let adr = in_Address this;
          base = fst (Ideal_base_and_offset ph adr);
          offset = snd (Ideal_base_and_offset ph adr);
          alloc = (case base of None \<Rightarrow> None | Some b \<Rightarrow> Ideal_allocation ph b)
      in find_previous_store_step ph g this base offset alloc (check_if_adr_maybe_raw ph adr))"

definition find_previous_store :: "phase \<Rightarrow> graph \<Rightarrow> MemNode \<Rightarrow> nid option" where
  "find_previous_store ph g this =
     (if snd (Ideal_base_and_offset ph (in_Address this)) = OffsetBot then None
      else find_previous_store_loop (find_previous_store_body ph g this) 50 (in_Memory this))"

text \<open>
  The memory states that the loop examines, in order: a ghost of the loop above, with the
  same test of the cycle limiter and the same body.
\<close>

function examined :: "(nid \<Rightarrow> step) \<Rightarrow> int \<Rightarrow> nid \<Rightarrow> nid list" where
  "examined body cnt mem =
     (if cnt - 1 < 0 then []
      else mem # (case body mem of
                    Continue mem' \<Rightarrow> examined body (cnt - 1) mem'
                  | Return_mem m \<Rightarrow> []
                  | Break \<Rightarrow> []))"
  by pat_completeness auto

termination
  by (relation "measure (\<lambda>(body, cnt, mem). nat cnt)") auto

declare examined.simps [simp del]



text \<open>
  Example: a load of four bytes at offset 16 of base 1 behind a store at offset 0 of
  another base 2 (node 200) that follows a store at offset 16 of base 1 (node 201); and a
  store whose memory input is itself (node 210).
\<close>

definition ph_walk :: phase where
  "ph_walk = phase0\<lparr>Ideal_base_and_offset :=
                (\<lambda>adr. if adr = 100 then (Some 1, 16) else if adr = 101 then (Some 2, 0)
                       else if adr = 111 then (Some 1, 16)
                       else (None, OffsetBot))\<rparr>"

definition g_walk :: graph where
  "g_walk = (\<lambda>n. Other)(200 := Store Op_StoreI 201 101 102, 201 := Store Op_StoreI 202 111 112,
               210 := Store Op_StoreI 210 101 102)"

definition this_load :: MemNode where
  "this_load = \<lparr>this_idx = 300, in_Address = 100, in_Memory = 200, this_memory_size = 4,
                alias_idx = 7, known_instance_field = False, store_Opcode = Op_StoreI,
                value_basic_type = T_INT, this_vect_type = 0,
                has_pinned_control_dependency = False, skip_through_membars = False,
                atp_index = 7, is_final_mem = False\<rparr>"




section \<open>MemNode::can_see_stored_value and LoadNode::Identity\<close>

definition BytesPerInt :: int where
  "BytesPerInt = 4"

text \<open>\<open>InitializeNode::find_captured_store\<close>; null is \<open>None\<close>.\<close>

definition find_captured_store ::
  "phase \<Rightarrow> graph \<Rightarrow> InitializeNode \<Rightarrow> int \<Rightarrow> int \<Rightarrow> nid option" where
  "find_captured_store ph g init start size_in_bytes =
     (let i = captured_store_insertion_point ph g init start size_in_bytes
      in if i = 0 then None
         else if i < 0 then Some (zero_memory init)
         else Some (raw_in init ! (nat i - RawStores)))"


text \<open>
  \<open>MemNode::find_array_copy_clone(ld_alloc, mem)\<close>: whether the result is not null.
\<close>

definition find_array_copy_clone :: "phase \<Rightarrow> graph \<Rightarrow> nid option \<Rightarrow> nid \<Rightarrow> bool" where
  "find_array_copy_clone ph g ld_alloc mem =
     (case g mem of
        Proj mb \<Rightarrow>
          (case g mb of
             MemBar opc mb_mem \<Rightarrow>
               if opc = Op_MemBarStoreStore \<or> opc = Op_MemBarCPUOrder then
                 (if ld_alloc \<noteq> None then
                    (case clone_basic_allocation ph mb of
                       None \<Rightarrow> False
                     | Some alloc \<Rightarrow> Some alloc = ld_alloc)
                  else False)
               else False
           | _ \<Rightarrow> False)
      | _ \<Rightarrow> False)"

text \<open>
  The body of the loop \<open>while (current->is_Proj())\<close> of \<open>can_see_stored_value\<close>, which
  skips through chains of memory barriers, at the node \<open>current\<close>: the loop keeps
  searching at another node (\<open>continue\<close>), or is left with the value of \<open>result\<close> (null
  is \<open>None\<close>); a \<open>current\<close> that is no projection leaves it at once.
\<close>

datatype membar_step = Keep_searching nid | Leave "nid option"

definition skip_membars_step :: "graph \<Rightarrow> bool \<Rightarrow> nat \<Rightarrow> nid \<Rightarrow> membar_step" where
  "skip_membars_step g final_mem idx current =
     (case g current of
        Proj in0 \<Rightarrow>
          (case g in0 of
             MemBar opc mem \<Rightarrow>
               if (final_mem \<and> (opc = Op_MemBarAcquire \<or> opc = Op_MemBarAcquireLock
                                \<or> opc = Op_LoadFence))
                  \<or> opc = Op_MemBarRelease \<or> opc = Op_StoreFence
                  \<or> opc = Op_MemBarReleaseLock \<or> opc = Op_MemBarStoreStore
                  \<or> opc = Op_StoreStoreFence
               then
                 (if is_MergeMem g mem then
                    (if memory_at (g mem) idx = base_memory (g mem)
                     then Keep_searching (memory_at (g mem) idx)
                     else Leave (Some (memory_at (g mem) idx)))
                  else Leave None)
               else Leave None
           | _ \<Rightarrow> Leave None)
      | _ \<Rightarrow> Leave None)"

text \<open>
  The loop itself. Nothing bounds it in the source, so it is a partial function: the
  outer \<open>None\<close> is a loop that does not return.
\<close>

partial_function (option) skip_membars_loop ::
  "graph \<Rightarrow> bool \<Rightarrow> nat \<Rightarrow> nid \<Rightarrow> nid option option" where
  "skip_membars_loop g final_mem idx current =
     (case skip_membars_step g final_mem idx current of
        Keep_searching new_st \<Rightarrow> skip_membars_loop g final_mem idx new_st
      | Leave result \<Rightarrow> Some result)"

declare skip_membars_loop.simps [code]

text \<open>
  Whether the loop is left within \<open>n\<close> trips from the node \<open>current\<close>: a ghost of the loop
  above, with the same body.
\<close>

fun membars_end_within :: "nat \<Rightarrow> graph \<Rightarrow> bool \<Rightarrow> nat \<Rightarrow> nid \<Rightarrow> bool" where
  "membars_end_within 0 g final_mem idx current = False"
| "membars_end_within (Suc n) g final_mem idx current =
     (case skip_membars_step g final_mem idx current of
        Keep_searching new_st \<Rightarrow> membars_end_within n g final_mem idx new_st
      | Leave result \<Rightarrow> True)"

text \<open>
  One trip of the loop "Loop around twice in the case Load -> Initialize -> Store" of
  \<open>can_see_stored_value\<close> at the memory state \<open>st\<close>: the function returns (null is
  \<open>None\<close>), or takes one more trip with the captured store found.
\<close>

datatype trip = Done "nid option" | Again nid

definition can_see_trip ::
  "phase \<Rightarrow> graph \<Rightarrow> MemNode \<Rightarrow> nid \<Rightarrow> trip" where
  "can_see_trip ph g this st =
     (let ld_adr = in_Address this;
          ld_base = fst (Ideal_base_and_offset ph ld_adr);
          ld_off = snd (Ideal_base_and_offset ph ld_adr);
          ld_alloc = (case ld_base of None \<Rightarrow> None | Some b \<Rightarrow> Ideal_allocation ph b);
          boxed = Done (boxed_value_input ph (this_idx this))
      in case g st of
           Store opc st_mem st_adr st_val \<Rightarrow>
             if st_adr \<noteq> ld_adr
                \<and> (case (ld_base, fst (Ideal_base_and_offset ph st_adr)) of
                      (Some lb, Some sb) \<Rightarrow>
                        \<not> eqv_uncast ph lb sb
                        \<or> ld_off \<noteq> snd (Ideal_base_and_offset ph st_adr)
                        \<or> ld_off = OffsetBot
                    | _ \<Rightarrow> True)
             then Done None
             else if store_Opcode this \<noteq> opc then Done None
             else if (case opc of Op_StoreVector n \<Rightarrow>
                                    StoreVector_vect_type ph st \<noteq> this_vect_type this
                      | _ \<Rightarrow> False)
             then Done None
             else Done (Some st_val)
         | Proj in0 \<Rightarrow>
             (case g in0 of
                Allocate alloc_mem hdr \<Rightarrow>
                  if Some in0 = ld_alloc \<and> ld_off \<ge> hdr
                     \<and> value_basic_type this \<noteq> T_VOID
                     \<and> (ReduceBulkZeroing ph
                          \<or> \<not> find_array_copy_clone ph g ld_alloc (in_Memory this))
                  then Done (Some (zerocon ph (value_basic_type this)))
                  else boxed
              | Initialize init \<Rightarrow>
                  (case allocation init of
                     None \<Rightarrow> boxed
                   | Some alloc \<Rightarrow>
                       if Some alloc = ld_alloc then
                         (case find_captured_store ph g init ld_off (this_memory_size this) of
                            None \<Rightarrow> boxed
                          | Some st' \<Rightarrow> Again st')
                       else boxed)
              | _ \<Rightarrow> boxed)
         | _ \<Rightarrow> boxed)"

text \<open>
  \<open>MemNode::can_see_stored_value(st, phase)\<close>: \<open>None\<close> when the loop over the memory
  barriers does not return, else the node returned (null is \<open>None\<close>).
\<close>

definition can_see_stored_value ::
  "phase \<Rightarrow> graph \<Rightarrow> MemNode \<Rightarrow> nid \<Rightarrow> nid option option" where
  "can_see_stored_value ph g this st =
     (case (if skip_through_membars this
            then skip_membars_loop g (is_final_mem this) (atp_index this) st
            else Some None) of
        None \<Rightarrow> None
      | Some result \<Rightarrow>
          Some (case can_see_trip ph g this (case result of None \<Rightarrow> st | Some r \<Rightarrow> r) of
                  Done v \<Rightarrow> v
                | Again st1 \<Rightarrow>
                    (case can_see_trip ph g this st1 of
                       Done v \<Rightarrow> v
                     | Again st2 \<Rightarrow> None)))"

text \<open>
  \<open>LoadNode::Identity\<close>: the node returned (the load itself is \<open>this_idx this\<close>), or
  \<open>None\<close> when \<open>can_see_stored_value\<close> does not return.
\<close>

definition LoadNode_Identity :: "phase \<Rightarrow> graph \<Rightarrow> MemNode \<Rightarrow> nid option" where
  "LoadNode_Identity ph g this =
     (case can_see_stored_value ph g this (in_Memory this) of
        None \<Rightarrow> None
      | Some (Some v) \<Rightarrow>
          if this_memory_size this < BytesPerInt \<and> \<not> type_higher_equal ph v (this_idx this)
          then Some (this_idx this)
          else if \<not> has_pinned_control_dependency this \<or> node_is_Con g v then Some v
          else Some (this_idx this)
      | Some None \<Rightarrow>
          if has_pinned_control_dependency this then Some (this_idx this)
          else (case same_inst_field_phi ph (this_idx this) of
                  Some phi \<Rightarrow> Some phi
                | None \<Rightarrow> Some (this_idx this)))"

text \<open>
  Example: an allocation (node 401) with its memory projection (node 402) and its
  initialization barrier (node 403, projection 404), the base 1 being the object
  allocated; a store of a constant (node 500) and a store of another value (node 510) to
  the address of the load; a pinned int load, an int load and a vector load. The barrier
  has captured an int store at offset 24 (node 540). Node 520 is the projection of a
  release barrier on a merge whose slice of the load is the store 510; node 530 is the
  projection of a release barrier on a merge whose base, and slice of the load, is node
  530 again.
\<close>

definition ph_load :: phase where
  "ph_load = phase0\<lparr>Ideal_base_and_offset :=
                (\<lambda>adr. if adr = 100 then (Some 1, 16) else if adr = 541 then (Some 5, 24)
                       else (None, OffsetBot)),
              Ideal_allocation := (\<lambda>p. if p = 1 then Some 401 else None)\<rparr>"

definition g_load :: graph where
  "g_load = (\<lambda>n. Other)(401 := Allocate 3 16, 402 := Proj 401,
               500 := Store Op_StoreI 402 100 502, 502 := Con,
               510 := Store Op_StoreI 402 100 512)"

definition pinned_load :: MemNode where
  "pinned_load = \<lparr>this_idx = 300, in_Address = 100, in_Memory = 500, this_memory_size = 4,
                alias_idx = 7, known_instance_field = False, store_Opcode = Op_StoreI,
                value_basic_type = T_INT, this_vect_type = 0,
                has_pinned_control_dependency = True, skip_through_membars = False,
                atp_index = 7, is_final_mem = False\<rparr>"




definition g_membar :: graph where
  "g_membar = g_load(520 := Proj 521, 521 := MemBar Op_MemBarRelease 522,
                     522 := MergeMem 0 402 [0, 0, 0, 0, 510],
                     530 := Proj 531, 531 := MemBar Op_MemBarRelease 532,
                     532 := MergeMem 0 530 [])"

definition membar_load :: MemNode where
  "membar_load = pinned_load\<lparr>in_Memory := 520, skip_through_membars := True\<rparr>"

definition cycle_load :: MemNode where
  "cycle_load = pinned_load\<lparr>in_Memory := 530, skip_through_membars := True\<rparr>"

section \<open>MergePrimitiveStores\<close>




























section \<open>Theorems\<close>

subsection \<open>Stores are never commoned\<close>

text \<open>
  C10. Two distinct store nodes are never identified by value numbering, even when all
  their inputs are identical: the hash of every store is the no-hash sentinel, cmp holds
  only between a store and itself, and the table identifies no store with any node.
\<close>

theorem C10_stores_not_commoned:
  "StoreNode_hash a = NO_HASH
   \<and> (StoreNode_cmp a b \<longleftrightarrow> st_idx b = st_idx a)
   \<and> (st_idx a \<noteq> st_idx b \<and> same_inputs a b \<longrightarrow> \<not> StoreNode_cmp a b)
   \<and> \<not> gvn_identifies a b"
  by (simp add: StoreNode_hash_def StoreNode_cmp_def gvn_identifies_def)

theorem C10_stores_not_commoned_witness:
  "st_idx \<lparr>st_idx = 7, st_Opcode = Op_StoreI, st_Control = Some 1, st_Memory = Some 2,
            st_Address = Some 3, st_ValueIn = Some 4\<rparr>
     \<noteq> st_idx \<lparr>st_idx = 8, st_Opcode = Op_StoreI, st_Control = Some 1, st_Memory = Some 2,
            st_Address = Some 3, st_ValueIn = Some 4\<rparr>
   \<and> same_inputs
        \<lparr>st_idx = 7, st_Opcode = Op_StoreI, st_Control = Some 1, st_Memory = Some 2,
         st_Address = Some 3, st_ValueIn = Some 4\<rparr>
        \<lparr>st_idx = 8, st_Opcode = Op_StoreI, st_Control = Some 1, st_Memory = Some 2,
         st_Address = Some 3, st_ValueIn = Some 4\<rparr>
   \<and> \<not> StoreNode_cmp
        \<lparr>st_idx = 7, st_Opcode = Op_StoreI, st_Control = Some 1, st_Memory = Some 2,
         st_Address = Some 3, st_ValueIn = Some 4\<rparr>
        \<lparr>st_idx = 8, st_Opcode = Op_StoreI, st_Control = Some 1, st_Memory = Some 2,
         st_Address = Some 3, st_ValueIn = Some 4\<rparr>
   \<and> StoreNode_hash
        \<lparr>st_idx = 7, st_Opcode = Op_StoreI, st_Control = Some 1, st_Memory = Some 2,
         st_Address = Some 3, st_ValueIn = Some 4\<rparr> = NO_HASH"
  using C10_stores_not_commoned
    [of "\<lparr>st_idx = 7, st_Opcode = Op_StoreI, st_Control = Some 1, st_Memory = Some 2,
          st_Address = Some 3, st_ValueIn = Some 4\<rparr>"
        "\<lparr>st_idx = 8, st_Opcode = Op_StoreI, st_Control = Some 1, st_Memory = Some 2,
          st_Address = Some 3, st_ValueIn = Some 4\<rparr>"]
  by (simp add: same_inputs_def)

subsection \<open>Truncation of a narrow load after a wider constant store\<close>

lemma sign_extend_low_byte:
  "signed_drop_bit 24 (push_bit 24 (c :: 32 word)) = scast (ucast c :: 8 word)"
  by (rule bit_word_eqI) (auto simp add: bit_simps)

lemma byte_mask_255: "(0xFF :: 32 word) = mask 8"
  by (simp add: mask_eq_exp_minus_1)

lemma mask_low_byte:
  "(c :: 32 word) AND 0xFF = ucast (ucast c :: 8 word)"
  unfolding byte_mask_255
  by (rule bit_word_eqI) (auto simp add: bit_simps)

text \<open>
  C6. When the defining store wrote an integer constant that does not fit the type of the
  byte load, the signed byte load yields the constant shifted left by 24 and arithmetically
  right by 24, which is the sign extension of its low byte, and the unsigned byte load
  yields the constant masked with 0xFF, its low byte zero extended; the int constant
  0x1234 read by a signed byte load gives 0x34.
\<close>

theorem C6_truncation:
  "(\<not> higher_equal (TypeInt_make c) ty \<longrightarrow>
      LoadBNode_Value (Some (ConI c)) ty lv = TypeInt_make (signed_drop_bit 24 (push_bit 24 c))
      \<and> LoadBNode_Value (Some (ConI c)) ty lv = TypeInt_make (scast (ucast c :: 8 word)))
   \<and> (\<not> higher_equal (TypeInt_make c) ty' \<longrightarrow>
      LoadUBNode_Value (Some (ConI c)) ty' lv' = TypeInt_make (c AND 0xFF)
      \<and> LoadUBNode_Value (Some (ConI c)) ty' lv' = TypeInt_make (ucast (ucast c :: 8 word)))
   \<and> LoadBNode_Value (Some (ConI 0x1234)) TypeInt_BYTE lv = TypeInt_make 0x34"
proof -
  have b: "LoadBNode_Value (Some (ConI 0x1234)) TypeInt_BYTE lv = TypeInt_make 0x34"
    by (simp add: LoadBNode_Value_def higher_equal_def TypeInt_make_def TypeInt_BYTE_def)
  show ?thesis
    using b
    by (simp add: LoadBNode_Value_def LoadUBNode_Value_def sign_extend_low_byte
        mask_low_byte)
qed

theorem C6_truncation_witness:
  "\<not> higher_equal (TypeInt_make 0x1234) TypeInt_BYTE
   \<and> LoadBNode_Value (Some (ConI 0x1234)) TypeInt_BYTE TypeInt_BYTE = TypeInt_make 0x34
   \<and> \<not> higher_equal (TypeInt_make 0x12F4) TypeInt_UBYTE
   \<and> LoadUBNode_Value (Some (ConI 0x12F4)) TypeInt_UBYTE TypeInt_UBYTE = TypeInt_make 0xF4
   \<and> ty_lo (LoadBNode_Value (Some (ConI 0x12F4)) TypeInt_BYTE TypeInt_BYTE) = -12"
proof -
  have h1: "\<not> higher_equal (TypeInt_make 0x1234) TypeInt_BYTE"
    by (simp add: higher_equal_def TypeInt_make_def TypeInt_BYTE_def)
  have h2: "\<not> higher_equal (TypeInt_make 0x12F4) TypeInt_UBYTE"
    by (simp add: higher_equal_def TypeInt_make_def TypeInt_UBYTE_def)
  have h3: "\<not> higher_equal (TypeInt_make 0x12F4) TypeInt_BYTE"
    by (simp add: higher_equal_def TypeInt_make_def TypeInt_BYTE_def)
  have a: "LoadBNode_Value (Some (ConI 0x1234)) TypeInt_BYTE TypeInt_BYTE = TypeInt_make 0x34"
    using C6_truncation [of "0x1234" TypeInt_BYTE TypeInt_BYTE TypeInt_BYTE TypeInt_BYTE]
    by simp
  have b: "LoadUBNode_Value (Some (ConI 0x12F4)) TypeInt_UBYTE TypeInt_UBYTE = TypeInt_make 0xF4"
    using C6_truncation [of "0x12F4" TypeInt_BYTE TypeInt_BYTE TypeInt_UBYTE TypeInt_UBYTE] h2
    by simp
  have c: "ty_lo (LoadBNode_Value (Some (ConI 0x12F4)) TypeInt_BYTE TypeInt_BYTE) = -12"
    using C6_truncation [of "0x12F4" TypeInt_BYTE TypeInt_BYTE TypeInt_UBYTE TypeInt_UBYTE] h3
    by (simp add: TypeInt_make_def)
  show ?thesis using h1 h2 a b c by simp
qed

subsection \<open>Memory merges: set_memory_at\<close>

lemma verify_sparse_slots: "verify_sparse m \<Longrightarrow> sparse_slots m"
  by (auto simp add: verify_sparse_def sparse_slots_def is_empty_memory_def Let_def list_all_iff
      split: if_splits)

lemma set_memory_at_base:
  "AliasIdxRaw \<le> idx \<Longrightarrow>
   set_memory_at (MergeMem e b s) idx b =
     (if idx < req (MergeMem e b s) then set_req (MergeMem e b s) idx e else MergeMem e b s)"
  by (auto simp add: set_memory_at_def Let_def req_def)

lemma set_memory_at_grows:
  "req (set_memory_at (MergeMem e b s) idx n) \<noteq> req (MergeMem e b s) \<Longrightarrow> n \<noteq> b \<and> n \<noteq> e"
  by (auto simp add: set_memory_at_def Let_def req_def set_req_def add_reqs_def AliasIdxTop_def
      AliasIdxBot_def AliasIdxRaw_def split: if_splits)

lemma set_memory_at_memory_at:
  "AliasIdxRaw \<le> idx \<Longrightarrow>
   memory_at (set_memory_at (MergeMem e b s) idx n) idx = (if n = e then b else n)"
  by (auto simp add: set_memory_at_def Let_def req_def set_req_def add_reqs_def AliasIdxTop_def
      AliasIdxBot_def AliasIdxRaw_def memory_at_def in_at_def is_empty_memory_def nth_append
      split: if_splits)

lemma verify_sparse_add_reqs:
  "verify_sparse (MergeMem e b s) \<Longrightarrow> verify_sparse (add_reqs (MergeMem e b s) k e)"
  by (auto simp add: verify_sparse_def add_reqs_def is_empty_memory_def list_all_iff)

lemma set_base_memory_sparse: "verify_sparse (set_base_memory (MergeMem e b s) nb)"
  by (auto simp add: set_base_memory_def verify_sparse_def is_empty_memory_def Let_def list_all_iff)

lemma grow_to_match_sparse:
  "verify_sparse (MergeMem e b s) \<Longrightarrow> verify_sparse (grow_to_match (MergeMem e b s) other)"
  by (auto simp add: grow_to_match_def Let_def verify_sparse_add_reqs split: list.splits)

lemma verify_sparse_set_req:
  assumes "AliasIdxRaw \<le> i" "v \<noteq> b" "verify_sparse (MergeMem e b s)"
  shows "verify_sparse (set_req (MergeMem e b s) i v)"
proof -
  have "set (s[i - AliasIdxRaw := v]) \<subseteq> insert v (set s)"
    by (rule set_update_subset_insert)
  moreover have "b \<noteq> e \<Longrightarrow> \<forall>x\<in>set s. x \<noteq> b" using assms(3)
    by (simp add: verify_sparse_def is_empty_memory_def list_all_iff)
  ultimately have "b \<noteq> e \<Longrightarrow> \<forall>x\<in>set (s[i - AliasIdxRaw := v]). x \<noteq> b"
    using assms(2) by blast
  then show ?thesis using assms(1)
    by (simp add: verify_sparse_def set_req_def is_empty_memory_def list_all_iff
        AliasIdxTop_def AliasIdxBot_def AliasIdxRaw_def)
qed

lemma verify_sparse_empty_base: "verify_sparse (MergeMem e e s)"
  by (simp add: verify_sparse_def is_empty_memory_def)

lemma set_memory_at_sparse:
  assumes "AliasIdxRaw \<le> idx" "verify_sparse (MergeMem e b s)"
  shows "verify_sparse (set_memory_at (MergeMem e b s) idx n)"
proof (cases "b = e")
  case True
  have "base_memory (set_memory_at (MergeMem e b s) idx n) = e
       \<and> empty_memory (set_memory_at (MergeMem e b s) idx n) = e" using assms(1) True
    by (simp add: set_memory_at_def Let_def set_req_def add_reqs_def AliasIdxTop_def
      AliasIdxBot_def AliasIdxRaw_def)
  then show ?thesis
    by (simp add: verify_sparse_def is_empty_memory_def)
next
  case False
  define n' where "n' = (if n = b then e else n)"
  have n': "n' \<noteq> b" using False by (simp add: n'_def)
  have a: "verify_sparse (set_req (MergeMem e b s) idx n')"
    by (rule verify_sparse_set_req [OF assms(1) n' assms(2)])
  have "verify_sparse (MergeMem e b (s @ replicate (idx + 1 - req (MergeMem e b s)) e))"
    using verify_sparse_add_reqs [OF assms(2)] by (simp add: add_reqs_def)
  then have b: "verify_sparse (set_req (add_reqs (MergeMem e b s) (idx + 1 - req (MergeMem e b s)) e) idx n')"
    unfolding add_reqs_def node.sel
    by (rule verify_sparse_set_req [OF assms(1) n'])
  show ?thesis using a b assms(2)
    by (simp add: set_memory_at_def Let_def n'_def)
qed

subsection \<open>Memory merges: Ideal\<close>

lemma ideal_slice_sparse:
  "Ideal_slice g this e ob nb i x \<noteq> nb \<or> Ideal_slice g this e ob nb i x = e"
  by (simp add: Ideal_slice_def Let_def)

lemma ideal_slice_progress:
  "ob \<noteq> e \<Longrightarrow> Ideal_slice g this e ob ob i ob \<noteq> ob"
  by (auto simp add: Ideal_slice_def Let_def)

lemma grow_to_match_slices:
  "\<exists>k. grow_to_match (MergeMem e b s) other = MergeMem e b (s @ replicate k e)"
proof (cases "filter (\<lambda>i. in_at other i \<noteq> e) (rev [req (MergeMem e b s) ..< req other])")
  case Nil
  then have "grow_to_match (MergeMem e b s) other = MergeMem e b (s @ replicate 0 e)"
    by (simp add: grow_to_match_def)
  then show ?thesis by blast
next
  case (Cons i rest)
  then show ?thesis
    by (simp add: grow_to_match_def add_reqs_def)
qed

lemma Ideal_rollup_cases: "Ideal_rollup tr g e b = e \<or> Ideal_rollup tr g e b = b"
  by (simp add: Ideal_rollup_def split: option.splits)

lemma Ideal_slices_length: "length (Ideal_slices g this e ob nb m1) = length (slices m1)"
  by (simp add: Ideal_slices_def req_def)

lemma Ideal_slices_nth:
  "k < length (slices m1) \<Longrightarrow>
   Ideal_slices g this e ob nb m1 ! k = Ideal_slice g this e ob nb (AliasIdxRaw + k) (slices m1 ! k)"
  by (simp add: Ideal_slices_def req_def)

lemma Ideal_early: "g this = MergeMem e e s \<Longrightarrow> MergeMemNode_Ideal tr g this cr = (g, False)"
  by (simp add: MergeMemNode_Ideal_def)

lemma Ideal_shape:
  assumes "g this = MergeMem e b s" "b \<noteq> e"
  shows "\<exists>k nb b3 ni.
    nb = (if is_MergeMem g b then base_memory (g b) else b)
    \<and> (b3 = e \<or> b3 = nb)
    \<and> ni = Ideal_slices g this e b nb (MergeMem e b (s @ replicate k e))
    \<and> fst (MergeMemNode_Ideal tr g this cr) this =
       MergeMem e b3 (if b3 = e \<and> \<not> cr then map (\<lambda>x. e) ni else ni)
    \<and> snd (MergeMemNode_Ideal tr g this cr) = (ni \<noteq> s @ replicate k e \<or> nb \<noteq> b \<or> b3 = e)
    \<and> (\<forall>n. n \<noteq> this \<longrightarrow> fst (MergeMemNode_Ideal tr g this cr) n = g n)"
proof -
  define nb where "nb = (if is_MergeMem g b then base_memory (g b) else b)"
  define m1 where "m1 = (if is_MergeMem g b then grow_to_match (g this) (g b) else g this)"
  obtain k where k: "m1 = MergeMem e b (s @ replicate k e)"
  proof (cases "is_MergeMem g b")
    case True
    then show ?thesis
      using grow_to_match_slices [of e b s "g b"] that assms(1) by (auto simp add: m1_def)
  next
    case False
    then have "m1 = MergeMem e b (s @ replicate 0 e)" using assms(1) by (simp add: m1_def)
    then show ?thesis using that by blast
  qed
  define ni where "ni = Ideal_slices g this e b nb m1"
  define b2 where "b2 = (if nb = this then e else nb)"
  define b3 where "b3 = Ideal_rollup tr (g(this := MergeMem e b2 ni)) e b2"
  have b3: "b3 = e \<or> b3 = nb"
    using Ideal_rollup_cases [of tr "g(this := MergeMem e b2 ni)" e b2]
    by (auto simp add: b3_def b2_def)
  have eq: "MergeMemNode_Ideal tr g this cr =
     (g(this := MergeMem e b3 (if b3 = e \<and> \<not> cr then map (\<lambda>x. e) ni else ni)),
      (ni \<noteq> slices m1 \<or> nb \<noteq> b) \<or> b3 = e)"
    unfolding MergeMemNode_Ideal_def Let_def assms(1) node.case
    using assms(2)
    by (simp only: nb_def m1_def ni_def b2_def b3_def assms(1) if_False)
  have 1: "fst (MergeMemNode_Ideal tr g this cr) this =
       MergeMem e b3 (if b3 = e \<and> \<not> cr then map (\<lambda>x. e) ni else ni)"
    by (simp add: eq)
  have 2: "snd (MergeMemNode_Ideal tr g this cr) = (ni \<noteq> s @ replicate k e \<or> nb \<noteq> b \<or> b3 = e)"
    by (auto simp add: eq k)
  have 3: "\<forall>n. n \<noteq> this \<longrightarrow> fst (MergeMemNode_Ideal tr g this cr) n = g n"
    by (simp add: eq)
  have 4: "ni = Ideal_slices g this e b nb (MergeMem e b (s @ replicate k e))"
    by (simp add: ni_def k)
  show ?thesis
    using nb_def b3 4 1 2 3 by blast
qed

text \<open>After every application the node is sparse.\<close>

lemma Ideal_post_sparse:
  assumes "g this = MergeMem e b s"
  shows "verify_sparse (fst (MergeMemNode_Ideal tr g this cr) this)"
proof (cases "b = e")
  case True
  then show ?thesis using assms Ideal_early [of g this e s tr cr]
    by (simp add: verify_sparse_empty_base)
next
  case False
  obtain k nb b3 ni where
    b3: "b3 = e \<or> b3 = nb" and
    ni: "ni = Ideal_slices g this e b nb (MergeMem e b (s @ replicate k e))" and
    res: "fst (MergeMemNode_Ideal tr g this cr) this =
       MergeMem e b3 (if b3 = e \<and> \<not> cr then map (\<lambda>x. e) ni else ni)"
    using Ideal_shape [of g this e b s tr cr] assms False by blast
  show ?thesis
  proof (cases "b3 = e")
    case True
    then show ?thesis by (simp add: res verify_sparse_empty_base)
  next
    case False
    then have nb: "b3 = nb" using b3 by simp
    have "\<forall>x\<in>set ni. x \<noteq> nb"
    proof
      fix x assume "x \<in> set ni"
      then obtain j where j: "j < length ni" "ni ! j = x" by (auto simp add: in_set_conv_nth)
      then have "x = Ideal_slice g this e b nb (AliasIdxRaw + j) ((s @ replicate k e) ! j)"
        using Ideal_slices_nth [of j "MergeMem e b (s @ replicate k e)" g this e b nb]
        by (simp add: ni Ideal_slices_length)
      then show "x \<noteq> nb"
        using ideal_slice_sparse [of g this e b nb "AliasIdxRaw + j" "(s @ replicate k e) ! j"] False nb
        by auto
    qed
    then show ?thesis using False nb
      by (simp add: res verify_sparse_def is_empty_memory_def list_all_iff)
  qed
qed

text \<open>A node for which no progress is reported was sparse already.\<close>

lemma Ideal_no_progress_sparse:
  assumes "g this = MergeMem e b s" "\<not> snd (MergeMemNode_Ideal tr g this cr)"
  shows "verify_sparse (g this)"
proof (cases "b = e")
  case True
  then show ?thesis using assms by (simp add: verify_sparse_empty_base)
next
  case False
  obtain k nb b3 ni where
    ni: "ni = Ideal_slices g this e b nb (MergeMem e b (s @ replicate k e))" and
    pr: "snd (MergeMemNode_Ideal tr g this cr) = (ni \<noteq> s @ replicate k e \<or> nb \<noteq> b \<or> b3 = e)"
    using Ideal_shape [of g this e b s tr cr] assms(1) False by blast
  from pr assms(2) have same: "ni = s @ replicate k e" and nb: "nb = b" by auto
  have "\<forall>x\<in>set s. x \<noteq> b"
  proof
    fix x assume "x \<in> set s"
    then obtain j where j: "j < length s" "s ! j = x" by (auto simp add: in_set_conv_nth)
    have "ni ! j = Ideal_slice g this e b b (AliasIdxRaw + j) x"
      using Ideal_slices_nth [of j "MergeMem e b (s @ replicate k e)" g this e b nb] j nb
      by (simp add: ni nth_append)
    moreover have "ni ! j = x" using same j by (simp add: nth_append)
    ultimately show "x \<noteq> b" using ideal_slice_progress [OF False, of g this "AliasIdxRaw + j"]
      by auto
  qed
  then show ?thesis using False assms(1)
    by (simp add: verify_sparse_def is_empty_memory_def list_all_iff)
qed

lemma Ideal_others:
  "n \<noteq> this \<Longrightarrow> fst (MergeMemNode_Ideal tr g this cr) n = g n"
  by (simp add: MergeMemNode_Ideal_def Let_def split: node.splits)

lemma Ideal_no_progress_same:
  assumes "g this = MergeMem e b s"
  shows "(\<not> snd (MergeMemNode_Ideal tr g this cr)) \<longleftrightarrow>
         (\<exists>k. fst (MergeMemNode_Ideal tr g this cr) this = MergeMem e b (s @ replicate k e))"
proof (cases "b = e")
  case True
  have "g this = MergeMem e b (s @ replicate 0 e)" using assms by simp
  then show ?thesis using assms True Ideal_early [of g this e s tr cr] by auto
next
  case False
  obtain k nb b3 ni where
    b3: "b3 = e \<or> b3 = nb" and
    ni: "ni = Ideal_slices g this e b nb (MergeMem e b (s @ replicate k e))" and
    res: "fst (MergeMemNode_Ideal tr g this cr) this =
       MergeMem e b3 (if b3 = e \<and> \<not> cr then map (\<lambda>x. e) ni else ni)" and
    pr: "snd (MergeMemNode_Ideal tr g this cr) = (ni \<noteq> s @ replicate k e \<or> nb \<noteq> b \<or> b3 = e)"
    using Ideal_shape [of g this e b s tr cr] assms False by blast
  have len: "length ni = length s + k" by (simp add: ni Ideal_slices_length)
  show ?thesis
  proof
    assume "\<not> snd (MergeMemNode_Ideal tr g this cr)"
    then have "ni = s @ replicate k e" "nb = b" "b3 \<noteq> e" using pr by auto
    then have "fst (MergeMemNode_Ideal tr g this cr) this = MergeMem e b (s @ replicate k e)"
      using res b3 by simp
    then show "\<exists>k. fst (MergeMemNode_Ideal tr g this cr) this = MergeMem e b (s @ replicate k e)"
      by blast
  next
    assume "\<exists>k. fst (MergeMemNode_Ideal tr g this cr) this = MergeMem e b (s @ replicate k e)"
    then obtain k' where k': "MergeMem e b3 (if b3 = e \<and> \<not> cr then map (\<lambda>x. e) ni else ni)
        = MergeMem e b (s @ replicate k' e)" using res by auto
    then have b3b: "b3 = b" by simp
    then have ne: "b3 \<noteq> e" using False by simp
    then have nb: "nb = b" using b3 b3b by simp
    from k' ne have ni': "ni = s @ replicate k' e" by simp
    then have "k' = k" using len by simp
    then show "\<not> snd (MergeMemNode_Ideal tr g this cr)" using pr ni' nb ne by simp
  qed
qed

lemma Ideal_slice_flat:
  "\<not> is_MergeMem g x \<Longrightarrow> \<not> is_MergeMem g b \<Longrightarrow> x \<noteq> b \<Longrightarrow>
   Ideal_slice g this e b b i x = x"
  by (auto simp add: Ideal_slice_def Let_def)

lemma Ideal_slices_flat:
  assumes "\<forall>x\<in>set s. \<not> is_MergeMem g x" "\<not> is_MergeMem g b" "\<forall>x\<in>set s. x \<noteq> b"
  shows "Ideal_slices g this e b b (MergeMem e b s) = s"
proof (rule nth_equalityI)
  show "length (Ideal_slices g this e b b (MergeMem e b s)) = length s"
    by (simp add: Ideal_slices_length)
next
  fix i assume "i < length (Ideal_slices g this e b b (MergeMem e b s))"
  then have i: "i < length s" by (simp add: Ideal_slices_length)
  then have "s ! i \<in> set s" by simp
  then have "\<not> is_MergeMem g (s ! i)" "s ! i \<noteq> b" using assms by blast+
  then have "Ideal_slice g this e b b (AliasIdxRaw + i) (s ! i) = s ! i"
    using assms(2) by (simp add: Ideal_slice_flat)
  then show "Ideal_slices g this e b b (MergeMem e b s) ! i = s ! i"
    using i Ideal_slices_nth [of i "MergeMem e b s" g this e b b]
    by simp
qed

lemma Ideal_flat_fixed:
  assumes g: "g this = MergeMem e b s"
    and sp: "verify_sparse (g this)"
    and fb: "\<not> is_MergeMem g b"
    and fs: "\<forall>x\<in>set s. \<not> is_MergeMem g x"
  shows "MergeMemNode_Ideal tr g this cr = (g, False)"
proof (cases "b = e")
  case True
  then show ?thesis using g Ideal_early [of g this e s tr cr] by simp
next
  case False
  have nob: "\<forall>x\<in>set s. x \<noteq> b" using sp False g
    by (simp add: verify_sparse_def is_empty_memory_def list_all_iff)
  have sl: "Ideal_slices g this e b b (MergeMem e b s) = s"
    by (rule Ideal_slices_flat [OF fs fb nob])
  have "is_MergeMem g this" using g by (simp add: is_MergeMem_def)
  then have bt: "b \<noteq> this" using fb by blast
  have upd: "g(this := MergeMem e b s) = g" using g by (rule fun_upd_idem)
  have nr: "Ideal_rollup tr g e b = b" using fb by (simp add: Ideal_rollup_def)
  have "MergeMemNode_Ideal tr g this cr =
        (let old_mbase = is_MergeMem g b;
                new_base = (if old_mbase then base_memory (g b) else b);
                m1 = (if old_mbase then grow_to_match (g this) (g b) else g this);
                new_ins = Ideal_slices g this e b new_base m1;
                progress1 = (new_ins \<noteq> slices m1);
                progress2 = (progress1 \<or> new_base \<noteq> b);
                base2 = (if new_base = this then e else new_base);
                g2 = g(this := MergeMem e base2 new_ins);
                base3 = Ideal_rollup tr g2 e base2;
                progress3 = (progress2 \<or> base3 = e);
                ins3 = (if base3 = e \<and> \<not> cr
                        then map (\<lambda>x. e) new_ins else new_ins)
            in (g(this := MergeMem e base3 ins3), progress3))"
    using False by (simp add: MergeMemNode_Ideal_def g)
  also have "\<dots> = (g, False)"
    using fb bt False by (simp add: Let_def g sl upd nr)
  finally show ?thesis .
qed

lemma Ideal_result_MergeMem:
  assumes "g this = MergeMem e b s"
  shows "\<exists>b1 s1. fst (MergeMemNode_Ideal tr g this cr) this = MergeMem e b1 s1"
proof (cases "b = e")
  case True
  then show ?thesis using assms Ideal_early [of g this e s tr cr] by simp
next
  case False
  then show ?thesis using Ideal_shape [of g this e b s tr cr] assms by blast
qed


text \<open>
  C2. The sparse invariant is kept by the operations on a MergeMem: for a slice index,
  set_memory_at with the base memory clears the slot to the sentinel and does not grow the
  node, the node grows only when a value other than the base and the sentinel is stored,
  the slice then reads back as that value, and a sparse node stays sparse; and when Ideal
  reports no progress, the node was sparse and is sparse, so that no explicitly stored
  slice input equals its base memory. After any application of Ideal the node is sparse.
  set_base_memory leaves a sparse node, and grow_to_match keeps a sparse node sparse.
\<close>

theorem C2_sparse_merge_invariant:
  "(AliasIdxRaw \<le> idx \<longrightarrow>
      set_memory_at (MergeMem e b s) idx b =
        (if idx < req (MergeMem e b s) then set_req (MergeMem e b s) idx e else MergeMem e b s)
      \<and> (req (set_memory_at (MergeMem e b s) idx n) \<noteq> req (MergeMem e b s) \<longrightarrow> n \<noteq> b \<and> n \<noteq> e)
      \<and> memory_at (set_memory_at (MergeMem e b s) idx n) idx = (if n = e then b else n)
      \<and> (verify_sparse (MergeMem e b s) \<longrightarrow>
           verify_sparse (set_memory_at (MergeMem e b s) idx n)))
   \<and> (g this = MergeMem e' b' s' \<and> \<not> snd (MergeMemNode_Ideal tr g this cr) \<longrightarrow>
        verify_sparse (g this)
        \<and> verify_sparse (fst (MergeMemNode_Ideal tr g this cr) this)
        \<and> sparse_slots (fst (MergeMemNode_Ideal tr g this cr) this))
   \<and> verify_sparse (set_base_memory (MergeMem e b s) nb)
   \<and> (verify_sparse (MergeMem e b s) \<longrightarrow>
        verify_sparse (grow_to_match (MergeMem e b s) other))"
proof -
  have a: "AliasIdxRaw \<le> idx \<Longrightarrow> set_memory_at (MergeMem e b s) idx b =
        (if idx < req (MergeMem e b s) then set_req (MergeMem e b s) idx e else MergeMem e b s)"
    by (rule set_memory_at_base)
  have b: "req (set_memory_at (MergeMem e b s) idx n) \<noteq> req (MergeMem e b s) \<Longrightarrow> n \<noteq> b \<and> n \<noteq> e"
    by (rule set_memory_at_grows)
  have c: "AliasIdxRaw \<le> idx \<Longrightarrow>
      memory_at (set_memory_at (MergeMem e b s) idx n) idx = (if n = e then b else n)"
    by (rule set_memory_at_memory_at)
  have d: "AliasIdxRaw \<le> idx \<Longrightarrow> verify_sparse (MergeMem e b s) \<Longrightarrow>
           verify_sparse (set_memory_at (MergeMem e b s) idx n)"
    by (rule set_memory_at_sparse)
  have e: "g this = MergeMem e' b' s' \<Longrightarrow> \<not> snd (MergeMemNode_Ideal tr g this cr) \<Longrightarrow>
        verify_sparse (g this)"
    by (rule Ideal_no_progress_sparse)
  have f: "g this = MergeMem e' b' s' \<Longrightarrow>
        verify_sparse (fst (MergeMemNode_Ideal tr g this cr) this)"
    by (rule Ideal_post_sparse)
  have h: "verify_sparse (set_base_memory (MergeMem e b s) nb)"
    by (rule set_base_memory_sparse)
  have i: "verify_sparse (MergeMem e b s) \<Longrightarrow>
        verify_sparse (grow_to_match (MergeMem e b s) other)"
    by (rule grow_to_match_sparse)
  show ?thesis using a b c d e f h i verify_sparse_slots by blast
qed


theorem C2_sparse_merge_invariant_witness:
  "AliasIdxRaw \<le> 5
   \<and> verify_sparse (MergeMem 0 20 [21])
   \<and> set_memory_at (MergeMem 0 20 [21]) 5 20 = MergeMem 0 20 [21]
   \<and> set_memory_at (MergeMem 0 20 [21]) 5 22 = MergeMem 0 20 [21, 0, 22]
   \<and> verify_sparse (set_memory_at (MergeMem 0 20 [21]) 5 22)
   \<and> g_flat 11 = Other
   \<and> \<not> snd (MergeMemNode_Ideal (\<lambda>n. Some n) (g_flat(10 := MergeMem 0 20 [21])) 10 True)
   \<and> verify_sparse ((g_flat(10 := MergeMem 0 20 [21])) 10)
   \<and> set_base_memory (MergeMem 0 20 [21]) 21 = MergeMem 0 21 [0]
   \<and> grow_to_match (MergeMem 0 20 [21]) (MergeMem 0 20 [0, 0, 23, 0]) = MergeMem 0 20 [21, 0, 0]
   \<and> verify_sparse (MergeMem 0 20 [21, 0, 0])"
proof -
  have h1: "AliasIdxRaw \<le> 5" by (simp add: AliasIdxRaw_def)
  have h2: "verify_sparse (MergeMem 0 20 [21])"
    by (simp add: verify_sparse_def is_empty_memory_def)
  have h3: "\<not> snd (MergeMemNode_Ideal (\<lambda>n. Some n) (g_flat(10 := MergeMem 0 20 [21])) 10 True)"
    by code_simp
  have h4: "(g_flat(10 := MergeMem 0 20 [21])) 10 = MergeMem 0 20 [21]" by simp
  have e1: "set_memory_at (MergeMem 0 20 [21]) 5 22 = MergeMem 0 20 [21, 0, 22]"
    by code_simp
  have e2: "g_flat 11 = Other" by code_simp
  have e3: "set_base_memory (MergeMem 0 20 [21]) 21 = MergeMem 0 21 [0]" by code_simp
  have e4: "grow_to_match (MergeMem 0 20 [21]) (MergeMem 0 20 [0, 0, 23, 0])
              = MergeMem 0 20 [21, 0, 0]" by code_simp
  show ?thesis
    using C2_sparse_merge_invariant [of 5 0 20 "[21]" 22 "g_flat(10 := MergeMem 0 20 [21])" 10
        0 20 "[21]" "\<lambda>n. Some n" True 21 "MergeMem 0 20 [0, 0, 23, 0]"] h1 h2 h3 h4 e1 e2 e3 e4
    by (simp add: req_def AliasIdxRaw_def)
qed


text \<open>
  C8, as stated, fails: Ideal removes one level of stacked merges at a time, so a second
  application right after one that changed the node can change it again. On the chain
  below the node is sparse, the first application rewrites the slice from node 11 to node
  12 and the second from node 12 to node 13, both reporting progress.
\<close>

theorem C8_idempotence_counterexample:
  "verify_sparse (g_chain 10)
   \<and> snd (MergeMemNode_Ideal (\<lambda>n. Some n) g_chain 10 True)
   \<and> snd (MergeMemNode_Ideal (\<lambda>n. Some n)
            (fst (MergeMemNode_Ideal (\<lambda>n. Some n) g_chain 10 True)) 10 True)
   \<and> fst (MergeMemNode_Ideal (\<lambda>n. Some n) g_chain 10 True) 10 = MergeMem 0 20 [12]
   \<and> fst (MergeMemNode_Ideal (\<lambda>n. Some n)
            (fst (MergeMemNode_Ideal (\<lambda>n. Some n) g_chain 10 True)) 10 True) 10
       = MergeMem 0 20 [13]"
  by code_simp


text \<open>
  C8, amended. Ideal reports no change exactly when it leaves the base and every slice
  input as they are (up to sentinel inputs added at the end by grow_to_match); and when,
  after an application, neither the base nor any slice input of the node is itself a
  MergeMem, a second application reports no change and leaves the graph as it is.
\<close>

theorem C8_Ideal_fixed_point:
  "g this = MergeMem e b s \<longrightarrow>
     ((\<not> snd (MergeMemNode_Ideal tr g this cr)) \<longleftrightarrow>
        (\<exists>k. fst (MergeMemNode_Ideal tr g this cr) this = MergeMem e b (s @ replicate k e)))
     \<and> ((\<not> is_MergeMem (fst (MergeMemNode_Ideal tr g this cr))
               (base_memory (fst (MergeMemNode_Ideal tr g this cr) this))
          \<and> (\<forall>x\<in>set (slices (fst (MergeMemNode_Ideal tr g this cr) this)).
               \<not> is_MergeMem (fst (MergeMemNode_Ideal tr g this cr)) x))
         \<longrightarrow> MergeMemNode_Ideal tr (fst (MergeMemNode_Ideal tr g this cr)) this cr
               = (fst (MergeMemNode_Ideal tr g this cr), False))"
proof
  assume g: "g this = MergeMem e b s"
  define g1 where "g1 = fst (MergeMemNode_Ideal tr g this cr)"
  obtain b1 s1 where g1: "g1 this = MergeMem e b1 s1"
    using Ideal_result_MergeMem [of g this e b s tr cr] g by (auto simp add: g1_def)
  have sp: "verify_sparse (g1 this)"
    unfolding g1_def using g by (rule Ideal_post_sparse)
  have flat: "\<not> is_MergeMem g1 (base_memory (g1 this)) \<and> (\<forall>x\<in>set (slices (g1 this)). \<not> is_MergeMem g1 x)
     \<longrightarrow> MergeMemNode_Ideal tr g1 this cr = (g1, False)"
  proof
    assume a: "\<not> is_MergeMem g1 (base_memory (g1 this)) \<and> (\<forall>x\<in>set (slices (g1 this)). \<not> is_MergeMem g1 x)"
    then have fb: "\<not> is_MergeMem g1 b1" and fs: "\<forall>x\<in>set s1. \<not> is_MergeMem g1 x"
      by (simp_all add: g1)
    show "MergeMemNode_Ideal tr g1 this cr = (g1, False)"
      by (rule Ideal_flat_fixed [OF g1 sp fb fs])
  qed
  show "((\<not> snd (MergeMemNode_Ideal tr g this cr)) \<longleftrightarrow>
        (\<exists>k. fst (MergeMemNode_Ideal tr g this cr) this = MergeMem e b (s @ replicate k e)))
     \<and> ((\<not> is_MergeMem (fst (MergeMemNode_Ideal tr g this cr))
               (base_memory (fst (MergeMemNode_Ideal tr g this cr) this))
          \<and> (\<forall>x\<in>set (slices (fst (MergeMemNode_Ideal tr g this cr) this)).
               \<not> is_MergeMem (fst (MergeMemNode_Ideal tr g this cr)) x))
         \<longrightarrow> MergeMemNode_Ideal tr (fst (MergeMemNode_Ideal tr g this cr)) this cr
               = (fst (MergeMemNode_Ideal tr g this cr), False))"
    using Ideal_no_progress_same [of g this e b s tr cr] g flat unfolding g1_def by blast
qed


theorem C8_Ideal_fixed_point_witness:
  "g_flat 10 = MergeMem 0 20 [21, 20]
   \<and> snd (MergeMemNode_Ideal (\<lambda>n. Some n) g_flat 10 True)
   \<and> fst (MergeMemNode_Ideal (\<lambda>n. Some n) g_flat 10 True) 10 = MergeMem 0 20 [21, 0]
   \<and> MergeMemNode_Ideal (\<lambda>n. Some n) (fst (MergeMemNode_Ideal (\<lambda>n. Some n) g_flat 10 True)) 10 True
       = (fst (MergeMemNode_Ideal (\<lambda>n. Some n) g_flat 10 True), False)"
proof -
  have h: "g_flat 10 = MergeMem 0 20 [21, 20]" by code_simp
  have r: "fst (MergeMemNode_Ideal (\<lambda>n. Some n) g_flat 10 True) 10 = MergeMem 0 20 [21, 0]"
    by code_simp
  have p: "snd (MergeMemNode_Ideal (\<lambda>n. Some n) g_flat 10 True)" by code_simp
  have o: "\<And>n. n \<noteq> 10 \<Longrightarrow> fst (MergeMemNode_Ideal (\<lambda>n. Some n) g_flat 10 True) n = g_flat n"
    by (rule Ideal_others)
  have f1: "\<not> is_MergeMem (fst (MergeMemNode_Ideal (\<lambda>n. Some n) g_flat 10 True)) 20"
    using o [of 20] by (simp add: is_MergeMem_def g_flat_def)
  have f2: "\<not> is_MergeMem (fst (MergeMemNode_Ideal (\<lambda>n. Some n) g_flat 10 True)) 21"
    using o [of 21] by (simp add: is_MergeMem_def g_flat_def)
  have f3: "\<not> is_MergeMem (fst (MergeMemNode_Ideal (\<lambda>n. Some n) g_flat 10 True)) 0"
    using o [of 0] by (simp add: is_MergeMem_def g_flat_def)
  show ?thesis
    using C8_Ideal_fixed_point [of g_flat 10 0 20 "[21, 20]" "\<lambda>n. Some n" True] h r p f1 f2 f3
    by simp
qed

subsection \<open>Initialization barriers: captured stores\<close>







































subsection \<open>The walk of find_previous_store\<close>

lemma examined_length: "length (examined body cnt mem) \<le> nat cnt"
proof (induction body cnt mem rule: examined.induct)
  case (1 body cnt mem)
  show ?case
  proof (cases "cnt - 1 < 0")
    case True
    then show ?thesis by (simp add: examined.simps)
  next
    case False
    show ?thesis
    proof (cases "body mem")
      case (Continue mem')
      then have "length (examined body (cnt - 1) mem') \<le> nat (cnt - 1)"
        using 1 False by simp
      then show ?thesis using False Continue by (simp add: examined.simps [of body cnt mem])
    next
      case (Return_mem m)
      then show ?thesis using False by (simp add: examined.simps [of body cnt mem])
    next
      case Break
      then show ?thesis using False by (simp add: examined.simps [of body cnt mem])
    qed
  qed
qed

lemma loop_by_examined:
  "find_previous_store_loop body cnt mem =
     (case examined body cnt mem of
        [] \<Rightarrow> None
      | x # xs \<Rightarrow> (case body (last (x # xs)) of Return_mem m \<Rightarrow> Some m | _ \<Rightarrow> None))"
proof (induction body cnt mem rule: find_previous_store_loop.induct)
  case (1 body cnt mem)
  show ?case
  proof (cases "cnt - 1 < 0")
    case True
    then show ?thesis
      by (simp add: examined.simps find_previous_store_loop.simps)
  next
    case False
    show ?thesis
    proof (cases "body mem")
      case (Continue mem')
      have ih: "find_previous_store_loop body (cnt - 1) mem' =
         (case examined body (cnt - 1) mem' of
            [] \<Rightarrow> None
          | x # xs \<Rightarrow> (case body (last (x # xs)) of Return_mem m \<Rightarrow> Some m | _ \<Rightarrow> None))"
        using 1 False Continue by simp
      show ?thesis
        using False Continue ih
        by (simp add: examined.simps [of body cnt mem]
            find_previous_store_loop.simps [of body cnt mem] split: list.splits)
    next
      case (Return_mem m)
      then show ?thesis using False
        by (simp add: examined.simps [of body cnt mem]
            find_previous_store_loop.simps [of body cnt mem])
    next
      case Break
      then show ?thesis using False
        by (simp add: examined.simps [of body cnt mem]
            find_previous_store_loop.simps [of body cnt mem])
    qed
  qed
qed


lemma loop_all_continue:
  "\<forall>m\<in>set (examined body cnt mem). \<exists>m'. body m = Continue m' \<Longrightarrow>
   find_previous_store_loop body cnt mem = None"
proof -
  assume a: "\<forall>m\<in>set (examined body cnt mem). \<exists>m'. body m = Continue m'"
  show ?thesis
  proof (cases "examined body cnt mem")
    case Nil
    then show ?thesis using loop_by_examined [of body cnt mem] by simp
  next
    case (Cons x xs)
    then have "last (x # xs) \<in> set (examined body cnt mem)"
      by (metis last_in_set list.distinct(1))
    then obtain m' where "body (last (x # xs)) = Continue m'" using a by blast
    then show ?thesis using Cons loop_by_examined [of body cnt mem] by simp
  qed
qed













text \<open>
  C7. The walk of find_previous_store examines at most 50 memory states, its answer is
  decided by the last of them, and when the walk is still going on at every state it
  examined (the bound is exhausted, as on a cycle of the memory chain) the answer is null.
  The recursion of the loop is well-founded in the cycle limiter, whatever the graph.
\<close>

theorem C7_walk_bounded:
  "length (examined (find_previous_store_body ph g this) 50 (in_Memory this)) \<le> 50
   \<and> find_previous_store ph g this =
       (if snd (Ideal_base_and_offset ph (in_Address this)) = OffsetBot then None
        else case examined (find_previous_store_body ph g this) 50 (in_Memory this) of
               [] \<Rightarrow> None
             | x # xs \<Rightarrow>
                 (case find_previous_store_body ph g this (last (x # xs)) of
                    Return_mem r \<Rightarrow> Some r | _ \<Rightarrow> None))
   \<and> ((\<forall>m\<in>set (examined (find_previous_store_body ph g this) 50 (in_Memory this)).
          \<exists>m'. find_previous_store_body ph g this m = Continue m')
       \<longrightarrow> find_previous_store ph g this = None)"
proof -
  have a: "length (examined (find_previous_store_body ph g this) 50 (in_Memory this)) \<le> 50"
    using examined_length [of "find_previous_store_body ph g this" 50 "in_Memory this"] by simp
  have b: "find_previous_store ph g this =
       (if snd (Ideal_base_and_offset ph (in_Address this)) = OffsetBot then None
        else case examined (find_previous_store_body ph g this) 50 (in_Memory this) of
               [] \<Rightarrow> None
             | x # xs \<Rightarrow>
                 (case find_previous_store_body ph g this (last (x # xs)) of
                    Return_mem r \<Rightarrow> Some r | _ \<Rightarrow> None))"
    unfolding find_previous_store_def
    using loop_by_examined [of "find_previous_store_body ph g this" 50 "in_Memory this"]
    by simp
  have c: "(\<forall>m\<in>set (examined (find_previous_store_body ph g this) 50 (in_Memory this)).
          \<exists>m'. find_previous_store_body ph g this m = Continue m')
       \<longrightarrow> find_previous_store ph g this = None"
    unfolding find_previous_store_def
    using loop_all_continue [of "find_previous_store_body ph g this" 50 "in_Memory this"]
    by simp
  show ?thesis using a b c by blast
qed

theorem C7_walk_bounded_witness:
  "examined (find_previous_store_body ph_walk g_walk (this_load\<lparr>in_Memory := 210\<rparr>)) 50 210
     = replicate 50 210
   \<and> find_previous_store_body ph_walk g_walk (this_load\<lparr>in_Memory := 210\<rparr>) 210 = Continue 210
   \<and> find_previous_store ph_walk g_walk (this_load\<lparr>in_Memory := 210\<rparr>) = None"
proof -
  have e: "examined (find_previous_store_body ph_walk g_walk (this_load\<lparr>in_Memory := 210\<rparr>)) 50 210
     = replicate 50 210" by code_simp
  have s: "find_previous_store_body ph_walk g_walk (this_load\<lparr>in_Memory := 210\<rparr>) 210 = Continue 210"
    by code_simp
  have m: "in_Memory (this_load\<lparr>in_Memory := 210\<rparr>) = 210" by simp
  have "\<forall>m\<in>set (examined (find_previous_store_body ph_walk g_walk (this_load\<lparr>in_Memory := 210\<rparr>)) 50
                    (in_Memory (this_load\<lparr>in_Memory := 210\<rparr>))).
          \<exists>m'. find_previous_store_body ph_walk g_walk (this_load\<lparr>in_Memory := 210\<rparr>) m = Continue m'"
    using e s m by simp
  then have "find_previous_store ph_walk g_walk (this_load\<lparr>in_Memory := 210\<rparr>) = None"
    using C7_walk_bounded [of ph_walk g_walk "this_load\<lparr>in_Memory := 210\<rparr>"] by blast
  then show ?thesis using e s by simp
qed

subsection \<open>Identity of a load and the value of fresh memory\<close>

text \<open>The loop over the memory barriers returns exactly when it is left within some number of trips.\<close>

lemma membars_end_returns:
  "membars_end_within n g f i c \<Longrightarrow> \<exists>r. skip_membars_loop g f i c = Some r"
proof (induction n arbitrary: c)
  case 0
  then show ?case by simp
next
  case (Suc n)
  show ?case
  proof (cases "skip_membars_step g f i c")
    case (Keep_searching c')
    then have "membars_end_within n g f i c'" using Suc.prems by simp
    then obtain r where "skip_membars_loop g f i c' = Some r" using Suc.IH by blast
    then show ?thesis using Keep_searching by (simp add: skip_membars_loop.simps [of g f i c])
  next
    case (Leave r)
    then show ?thesis by (simp add: skip_membars_loop.simps [of g f i c])
  qed
qed

lemma membars_returns_end:
  assumes "skip_membars_loop g f i c = Some r"
  shows "\<exists>n. membars_end_within n g f i c"
proof (rule skip_membars_loop.raw_induct
    [where P = "\<lambda>g f i c r. \<exists>n. membars_end_within n g f i c", OF _ assms])
  fix skip g f i c r
  assume ih: "\<And>g f i c r. skip g f i c = Some r \<Longrightarrow> \<exists>n. membars_end_within n g f i c"
    and st: "(case skip_membars_step g f i c of
                Keep_searching new_st \<Rightarrow> skip g f i new_st
              | Leave result \<Rightarrow> Some result) = Some r"
  show "\<exists>n. membars_end_within n g f i c"
  proof (cases "skip_membars_step g f i c")
    case (Keep_searching c')
    then have "skip g f i c' = Some r" using st by simp
    then obtain n where "membars_end_within n g f i c'" using ih by blast
    then have "membars_end_within (Suc n) g f i c" using Keep_searching by simp
    then show ?thesis by blast
  next
    case (Leave r')
    then have "membars_end_within (Suc 0) g f i c" by simp
    then show ?thesis by blast
  qed
qed

lemma can_see_returns:
  "(\<exists>seen. can_see_stored_value ph g this st = Some seen) \<longleftrightarrow>
   (skip_through_membars this \<longrightarrow>
      (\<exists>n. membars_end_within n g (is_final_mem this) (atp_index this) st))"
proof (cases "skip_through_membars this")
  case False
  then show ?thesis by (simp add: can_see_stored_value_def)
next
  case True
  show ?thesis
  proof (cases "skip_membars_loop g (is_final_mem this) (atp_index this) st")
    case None
    then have "\<not> (\<exists>n. membars_end_within n g (is_final_mem this) (atp_index this) st)"
      using membars_end_returns [of _ g "is_final_mem this" "atp_index this" st] by auto
    then show ?thesis using True None by (simp add: can_see_stored_value_def)
  next
    case (Some r)
    then have "\<exists>n. membars_end_within n g (is_final_mem this) (atp_index this) st"
      by (rule membars_returns_end)
    then show ?thesis using True Some by (simp add: can_see_stored_value_def)
  qed
qed

lemma Identity_of_seen:
  "can_see_stored_value ph g this (in_Memory this) = Some seen \<Longrightarrow>
   has_pinned_control_dependency this \<Longrightarrow>
   LoadNode_Identity ph g this =
     Some (case seen of
             None \<Rightarrow> this_idx this
           | Some v \<Rightarrow>
               if node_is_Con g v
                  \<and> \<not> (this_memory_size this < BytesPerInt
                        \<and> \<not> type_higher_equal ph v (this_idx this))
               then v else this_idx this)"
  by (cases seen) (simp_all add: LoadNode_Identity_def)

lemma cycle_never_ends: "\<not> membars_end_within n g_membar f 7 530"
proof (induction n)
  case 0
  show ?case by simp
next
  case (Suc n)
  have "skip_membars_step g_membar f 7 530 = Keep_searching 530"
    by (simp add: skip_membars_step_def g_membar_def is_MergeMem_def memory_at_def req_def
        AliasIdxRaw_def is_empty_memory_def)
  then show ?case using Suc by simp
qed

text \<open>
  C3, as stated, fails: a load with a pinned control dependency is replaced by the value
  of its defining store when that value is a constant (the source:
  \<open>if (!has_pinned_control_dependency() || value->is_Con()) return value\<close>). Below, the
  pinned int load sees the store 500 of the constant 502 to its own address, and Identity
  returns the constant.
\<close>

theorem C3_pinned_counterexample:
  "has_pinned_control_dependency pinned_load
   \<and> can_see_stored_value ph_load g_load pinned_load (in_Memory pinned_load) = Some (Some 502)
   \<and> LoadNode_Identity ph_load g_load pinned_load = Some 502
   \<and> this_idx pinned_load \<noteq> 502"
  by code_simp

text \<open>
  C3, amended. For a load with a pinned control dependency, Identity returns exactly when
  the load does not skip through memory barriers or the loop over the barriers, which
  nothing bounds, is left within some number of trips from the memory input. When it
  returns, can_see_stored_value has returned, and Identity returns the load itself when
  no value is seen or when the value seen is not a constant node; when the value seen is
  a constant node (the top node is one) it returns that node, unless the load is narrower
  than an int and the type of the value does not fit the type of the load, where it
  returns the load itself.
\<close>

theorem C3_pinned_Identity:
  "has_pinned_control_dependency this \<longrightarrow>
     ((\<exists>r. LoadNode_Identity ph g this = Some r) \<longleftrightarrow>
        (skip_through_membars this \<longrightarrow>
           (\<exists>n. membars_end_within n g (is_final_mem this) (atp_index this) (in_Memory this))))
     \<and> ((skip_through_membars this \<longrightarrow>
            membars_end_within n g (is_final_mem this) (atp_index this) (in_Memory this))
         \<longrightarrow> (\<exists>seen. can_see_stored_value ph g this (in_Memory this) = Some seen
                \<and> LoadNode_Identity ph g this =
                     Some (case seen of
                             None \<Rightarrow> this_idx this
                           | Some v \<Rightarrow>
                               if node_is_Con g v
                                  \<and> \<not> (this_memory_size this < BytesPerInt
                                        \<and> \<not> type_higher_equal ph v (this_idx this))
                               then v else this_idx this)))"
proof
  assume pin: "has_pinned_control_dependency this"
  have ret: "(\<exists>seen. can_see_stored_value ph g this (in_Memory this) = Some seen) \<longleftrightarrow>
     (skip_through_membars this \<longrightarrow>
        (\<exists>n. membars_end_within n g (is_final_mem this) (atp_index this) (in_Memory this)))"
    by (rule can_see_returns)
  have a: "(\<exists>r. LoadNode_Identity ph g this = Some r) \<longleftrightarrow>
     (\<exists>seen. can_see_stored_value ph g this (in_Memory this) = Some seen)"
  proof (cases "can_see_stored_value ph g this (in_Memory this)")
    case None
    then show ?thesis by (simp add: LoadNode_Identity_def)
  next
    case (Some seen)
    then show ?thesis using Identity_of_seen [OF Some pin] by simp
  qed
  have b: "(skip_through_membars this \<longrightarrow>
            membars_end_within n g (is_final_mem this) (atp_index this) (in_Memory this))
         \<longrightarrow> (\<exists>seen. can_see_stored_value ph g this (in_Memory this) = Some seen
                \<and> LoadNode_Identity ph g this =
                     Some (case seen of
                             None \<Rightarrow> this_idx this
                           | Some v \<Rightarrow>
                               if node_is_Con g v
                                  \<and> \<not> (this_memory_size this < BytesPerInt
                                        \<and> \<not> type_higher_equal ph v (this_idx this))
                               then v else this_idx this))"
  proof
    assume "skip_through_membars this \<longrightarrow>
            membars_end_within n g (is_final_mem this) (atp_index this) (in_Memory this)"
    then obtain seen where s: "can_see_stored_value ph g this (in_Memory this) = Some seen"
      using ret by blast
    show "\<exists>seen. can_see_stored_value ph g this (in_Memory this) = Some seen
                \<and> LoadNode_Identity ph g this =
                     Some (case seen of
                             None \<Rightarrow> this_idx this
                           | Some v \<Rightarrow>
                               if node_is_Con g v
                                  \<and> \<not> (this_memory_size this < BytesPerInt
                                        \<and> \<not> type_higher_equal ph v (this_idx this))
                               then v else this_idx this)"
      using s Identity_of_seen [OF s pin] by blast
  qed
  show "((\<exists>r. LoadNode_Identity ph g this = Some r) \<longleftrightarrow>
        (skip_through_membars this \<longrightarrow>
           (\<exists>n. membars_end_within n g (is_final_mem this) (atp_index this) (in_Memory this))))
     \<and> ((skip_through_membars this \<longrightarrow>
            membars_end_within n g (is_final_mem this) (atp_index this) (in_Memory this))
         \<longrightarrow> (\<exists>seen. can_see_stored_value ph g this (in_Memory this) = Some seen
                \<and> LoadNode_Identity ph g this =
                     Some (case seen of
                             None \<Rightarrow> this_idx this
                           | Some v \<Rightarrow>
                               if node_is_Con g v
                                  \<and> \<not> (this_memory_size this < BytesPerInt
                                        \<and> \<not> type_higher_equal ph v (this_idx this))
                               then v else this_idx this)))"
    using a ret b by blast
qed

theorem C3_pinned_Identity_witness:
  "has_pinned_control_dependency membar_load \<and> skip_through_membars membar_load
   \<and> membars_end_within 1 g_membar (is_final_mem membar_load) (atp_index membar_load)
        (in_Memory membar_load)
   \<and> \<not> node_is_Con g_membar 512
   \<and> can_see_stored_value ph_load g_membar membar_load (in_Memory membar_load) = Some (Some 512)
   \<and> LoadNode_Identity ph_load g_membar membar_load = Some (this_idx membar_load)
   \<and> has_pinned_control_dependency pinned_load \<and> \<not> skip_through_membars pinned_load
   \<and> node_is_Con g_load 502
   \<and> LoadNode_Identity ph_load g_load pinned_load = Some 502
   \<and> has_pinned_control_dependency cycle_load \<and> skip_through_membars cycle_load
   \<and> LoadNode_Identity ph_load g_membar cycle_load = None"
proof -
  have h1: "has_pinned_control_dependency membar_load" "skip_through_membars membar_load"
    by code_simp+
  have h2: "membars_end_within 1 g_membar (is_final_mem membar_load) (atp_index membar_load)
        (in_Memory membar_load)" by code_simp
  have h3: "\<not> node_is_Con g_membar 512" by code_simp
  have h4: "can_see_stored_value ph_load g_membar membar_load (in_Memory membar_load)
              = Some (Some 512)" by code_simp
  have a: "LoadNode_Identity ph_load g_membar membar_load = Some (this_idx membar_load)"
    using C3_pinned_Identity [of membar_load ph_load g_membar 1] h1 h2 h3 h4 by auto
  have k1: "has_pinned_control_dependency pinned_load" "\<not> skip_through_membars pinned_load"
    by code_simp+
  have k2: "can_see_stored_value ph_load g_load pinned_load (in_Memory pinned_load) = Some (Some 502)"
    by code_simp
  have k3: "node_is_Con g_load 502" by code_simp
  have k4: "\<not> this_memory_size pinned_load < BytesPerInt" by code_simp
  have b: "LoadNode_Identity ph_load g_load pinned_load = Some 502"
    using C3_pinned_Identity [of pinned_load ph_load g_load 0] k1 k2 k3 k4 by auto
  have c1: "has_pinned_control_dependency cycle_load" "skip_through_membars cycle_load"
    by code_simp+
  have c2: "is_final_mem cycle_load = False" "atp_index cycle_load = 7" "in_Memory cycle_load = 530"
    by code_simp+
  have "\<not> (\<exists>n. membars_end_within n g_membar (is_final_mem cycle_load) (atp_index cycle_load)
               (in_Memory cycle_load))"
    using cycle_never_ends c2 by simp
  then have "\<not> (\<exists>r. LoadNode_Identity ph_load g_membar cycle_load = Some r)"
    using C3_pinned_Identity [of cycle_load ph_load g_membar 0] c1 by blast
  then have c: "LoadNode_Identity ph_load g_membar cycle_load = None" by simp
  show ?thesis using h1 h2 h3 h4 a k1 k3 b c1 c by simp
qed












subsection \<open>Merging adjacent primitive stores\<close>













end
